theory Spec2Isabelle
  imports Complex_Main "HOL-Library.Sublist" "HOL-Library.Multiset"
begin

section \<open>JavaScript numbers\<close>

text \<open>
  The logic engine computes on JavaScript numbers, which are IEEE-754 doubles. A number
  is not-a-number, one of the two infinities, or finite; a finite number is given by
  its real value. Division and multiplication round their exact result to the nearest
  double, ties to even, and overflow to an infinity (\<open>double_of_real\<close> below). There is
  one zero (no \<open>-0\<close>). Comparisons with not-a-number are false, arithmetic on it gives
  not-a-number, as in the language.
\<close>

datatype jsnum = NaN | NegInf | Fin real | PosInf

text \<open>The operator \<open><\<close>; \<open>a > b\<close> is \<open>js_lt b a\<close>.\<close>

fun js_lt :: "jsnum \<Rightarrow> jsnum \<Rightarrow> bool" where
  "js_lt NaN b = False"
| "js_lt a NaN = False"
| "js_lt PosInf b = False"
| "js_lt a NegInf = False"
| "js_lt NegInf b = True"
| "js_lt a PosInf = True"
| "js_lt (Fin a) (Fin b) = (a < b)"

definition js_gt :: "jsnum \<Rightarrow> jsnum \<Rightarrow> bool" where
  "js_gt a b = js_lt b a"

text \<open>The operator \<open>>=\<close>: false when either side is not-a-number.\<close>

definition js_ge :: "jsnum \<Rightarrow> jsnum \<Rightarrow> bool" where
  "js_ge a b = (a \<noteq> NaN \<and> b \<noteq> NaN \<and> \<not> js_lt a b)"

text \<open>\<open>Math.abs\<close>, \<open>Math.round\<close> (half rounds up), \<open>Math.min\<close>, \<open>Math.max\<close>.\<close>

fun js_abs :: "jsnum \<Rightarrow> jsnum" where
  "js_abs NaN = NaN"
| "js_abs NegInf = PosInf"
| "js_abs PosInf = PosInf"
| "js_abs (Fin a) = Fin \<bar>a\<bar>"

fun js_round :: "jsnum \<Rightarrow> jsnum" where
  "js_round (Fin a) = Fin (of_int \<lfloor>a + 1 / 2\<rfloor>)"
| "js_round a = a"

definition js_min :: "jsnum \<Rightarrow> jsnum \<Rightarrow> jsnum" where
  "js_min a b = (if a = NaN \<or> b = NaN then NaN else if js_lt b a then b else a)"

definition js_max :: "jsnum \<Rightarrow> jsnum \<Rightarrow> jsnum" where
  "js_max a b = (if a = NaN \<or> b = NaN then NaN else if js_lt a b then b else a)"

definition signed_inf :: "bool \<Rightarrow> jsnum" where
  "signed_inf negative = (if negative then NegInf else PosInf)"

subsection \<open>Rounding to a double\<close>

text \<open>
  A double has 53 significant bits and a binary exponent from -1022 to 1023; below
  \<open>2 powi (- 1022)\<close> the spacing stays that of the exponent -1022 (subnormal numbers).
  \<open>double_exponent x\<close> is the exponent \<open>e\<close> with \<open>2 powi e \<le> \<bar>x\<bar> < 2 powi (e + 1)\<close>,
  found by counting up from -1022 and stopping at 1024, where every value overflows.
  \<open>round_double x\<close> is the multiple of the spacing \<open>2 powi (e - 52)\<close> nearest to \<open>x\<close>,
  the even multiple when two are equally near. A result of magnitude \<open>2 ^ 1024\<close> or
  more is an infinity.
\<close>

definition round_half_even :: "real \<Rightarrow> int" where
  "round_half_even y =
     (let n = \<lfloor>y\<rfloor>; d = y - of_int n
      in if d < 1 / 2 then n else if 1 / 2 < d then n + 1 else if even n then n else n + 1)"

fun exponent_search :: "nat \<Rightarrow> int \<Rightarrow> real \<Rightarrow> int" where
  "exponent_search 0 e y = e"
| "exponent_search (Suc n) e y =
     (if y < 2 powi (e + 1) then e else exponent_search n (e + 1) y)"

definition double_exponent :: "real \<Rightarrow> int" where
  "double_exponent x = exponent_search 2046 (- 1022) \<bar>x\<bar>"

definition round_double :: "real \<Rightarrow> real" where
  "round_double x =
     (let q = 2 powi (double_exponent x - 52)
      in of_int (round_half_even (x / q)) * q)"

definition double_of_real :: "real \<Rightarrow> jsnum" where
  "double_of_real x =
     (let r = round_double x
      in if 2 ^ 1024 \<le> \<bar>r\<bar> then signed_inf (x < 0) else Fin r)"

subsection \<open>Arithmetic\<close>

text \<open>
  The operators \<open>/\<close>, \<open>*\<close> and \<open>-\<close>. An infinity keeps or flips its sign with the
  sign of the other operand; \<open>0 * Infinity\<close>, \<open>Infinity / Infinity\<close>, \<open>0 / 0\<close> and
  \<open>Infinity - Infinity\<close> are not-a-number. The program uses a difference only for its
  sign, as the result of the sort comparator, and the rounded difference of two doubles
  has the sign of the exact one; \<open>js_sub\<close> gives the exact difference.
\<close>

fun js_mul :: "jsnum \<Rightarrow> jsnum \<Rightarrow> jsnum" where
  "js_mul NaN b = NaN"
| "js_mul a NaN = NaN"
| "js_mul (Fin a) (Fin b) = double_of_real (a * b)"
| "js_mul (Fin a) PosInf = (if a = 0 then NaN else signed_inf (a < 0))"
| "js_mul (Fin a) NegInf = (if a = 0 then NaN else signed_inf (0 < a))"
| "js_mul PosInf (Fin b) = (if b = 0 then NaN else signed_inf (b < 0))"
| "js_mul NegInf (Fin b) = (if b = 0 then NaN else signed_inf (0 < b))"
| "js_mul PosInf PosInf = PosInf"
| "js_mul NegInf NegInf = PosInf"
| "js_mul PosInf NegInf = NegInf"
| "js_mul NegInf PosInf = NegInf"

fun js_div :: "jsnum \<Rightarrow> jsnum \<Rightarrow> jsnum" where
  "js_div NaN b = NaN"
| "js_div a NaN = NaN"
| "js_div (Fin a) (Fin b) =
     (if b \<noteq> 0 then double_of_real (a / b)
      else if a = 0 then NaN else signed_inf (a < 0))"
| "js_div (Fin a) b = Fin 0"
| "js_div PosInf (Fin b) = signed_inf (b < 0)"
| "js_div NegInf (Fin b) = signed_inf (0 \<le> b)"
| "js_div a b = NaN"

fun js_sub :: "jsnum \<Rightarrow> jsnum \<Rightarrow> jsnum" where
  "js_sub NaN b = NaN"
| "js_sub a NaN = NaN"
| "js_sub (Fin a) (Fin b) = Fin (a - b)"
| "js_sub PosInf PosInf = NaN"
| "js_sub NegInf NegInf = NaN"
| "js_sub PosInf b = PosInf"
| "js_sub NegInf b = NegInf"
| "js_sub a PosInf = NegInf"
| "js_sub a NegInf = PosInf"

section \<open>Configuration and data\<close>

text \<open>The constants of \<open>CONFIG\<close> and the enumeration \<open>SIGNAL_TYPES\<close>.\<close>

definition WHALE_THRESHOLD_PRICE_CHANGE :: jsnum where
  "WHALE_THRESHOLD_PRICE_CHANGE = Fin 3"

definition WHALE_THRESHOLD_VOLUME :: jsnum where
  "WHALE_THRESHOLD_VOLUME = Fin 1000000"

definition PANIC_THRESHOLD_PRICE_CHANGE :: jsnum where
  "PANIC_THRESHOLD_PRICE_CHANGE = Fin (- 3)"

definition VOLATILITY_HIGH_THRESHOLD :: jsnum where
  "VOLATILITY_HIGH_THRESHOLD = Fin 5"

definition VOLATILITY_MEDIUM_THRESHOLD :: jsnum where
  "VOLATILITY_MEDIUM_THRESHOLD = Fin 2"

datatype signal_type = WHALE_ACTIVITY | PANIC_SELL | NEUTRAL

record volatility_result =
  score :: jsnum
  level :: string

section \<open>Volatility score\<close>

text \<open>
  \<open>calculateVolatilityScore(priceChangePercent)\<close>: the band is chosen by the chain of
  \<open>>=\<close> tests on the absolute change, the score of the band is rounded, and the result
  is passed through \<open>Math.min(100, Math.max(0, score))\<close>.
\<close>

definition calculateVolatilityScore :: "jsnum \<Rightarrow> volatility_result" where
  "calculateVolatilityScore priceChangePercent =
     (let absChange = js_abs priceChangePercent;
          (score, level) =
            (if js_ge absChange VOLATILITY_HIGH_THRESHOLD then
               (js_min (Fin 100) (js_round (js_mul (js_div absChange (Fin 10)) (Fin 100))),
                ''high'')
             else if js_ge absChange VOLATILITY_MEDIUM_THRESHOLD then
               (js_round (js_mul (js_div absChange VOLATILITY_HIGH_THRESHOLD) (Fin 70)),
                ''medium'')
             else
               (js_round (js_mul (js_div absChange VOLATILITY_MEDIUM_THRESHOLD) (Fin 30)),
                ''low''))
      in \<lparr> score = js_min (Fin 100) (js_max (Fin 0) score), level = level \<rparr>)"

section \<open>Signal classification\<close>

record signal_result =
  type :: signal_type
  message :: string
  priority :: string

text \<open>
  A raw ticker as the data source delivers it: every field is text. \<open>parseFloat\<close> is a
  function of the language, not of this program; the engine's functions take it as the
  parameter \<open>parseFloat\<close>, so every theorem holds for whatever it returns.
\<close>

record raw_ticker =
  raw_symbol :: string
  raw_lastPrice :: string
  raw_priceChange :: string
  raw_priceChangePercent :: string
  raw_volume :: string
  raw_quoteVolume :: string
  raw_highPrice :: string
  raw_lowPrice :: string

definition detectSignal :: "(string \<Rightarrow> jsnum) \<Rightarrow> raw_ticker \<Rightarrow> signal_result" where
  "detectSignal parseFloat tickerData =
     (let priceChangePercent = parseFloat (raw_priceChangePercent tickerData);
          volume = parseFloat (raw_quoteVolume tickerData)
      in if js_gt priceChangePercent WHALE_THRESHOLD_PRICE_CHANGE \<and>
            js_gt volume WHALE_THRESHOLD_VOLUME then
           \<lparr> type = WHALE_ACTIVITY, message = ''WHALE ACTIVITY - Strong Buy Signal'',
             priority = ''high'' \<rparr>
         else if js_lt priceChangePercent PANIC_THRESHOLD_PRICE_CHANGE then
           \<lparr> type = PANIC_SELL, message = ''PANIC SELL - Market Downturn'',
             priority = ''high'' \<rparr>
         else
           \<lparr> type = NEUTRAL, message = ''Normal Market Activity'', priority = ''low'' \<rparr>)"

section \<open>Ticker analysis\<close>

text \<open>
  \<open>s.replace(pattern, replacement)\<close> with a string pattern: the leftmost occurrence of
  the pattern is replaced, and only that one; a string without the pattern is returned
  as it is.
\<close>

fun string_replace :: "string \<Rightarrow> string \<Rightarrow> string \<Rightarrow> string" where
  "string_replace pat rep [] = (if pat = [] then rep else [])"
| "string_replace pat rep (c # cs) =
     (if prefix pat (c # cs) then rep @ drop (length pat) (c # cs)
      else c # string_replace pat rep cs)"

record enriched_ticker =
  symbol :: string
  baseAsset :: string
  price :: jsnum
  priceChange :: jsnum
  priceChangePercent :: jsnum
  volume :: jsnum
  quoteVolume :: jsnum
  highPrice :: jsnum
  lowPrice :: jsnum
  volatility :: volatility_result
  signal :: signal_result
  raw :: raw_ticker

definition analyzeTicker :: "(string \<Rightarrow> jsnum) \<Rightarrow> raw_ticker \<Rightarrow> enriched_ticker" where
  "analyzeTicker parseFloat tickerData =
     (let priceChangePercent = parseFloat (raw_priceChangePercent tickerData);
          volatility = calculateVolatilityScore priceChangePercent;
          signal = detectSignal parseFloat tickerData
      in \<lparr> symbol = raw_symbol tickerData,
           baseAsset = string_replace ''USDT'' [] (raw_symbol tickerData),
           price = parseFloat (raw_lastPrice tickerData),
           priceChange = parseFloat (raw_priceChange tickerData),
           priceChangePercent = priceChangePercent,
           volume = parseFloat (raw_volume tickerData),
           quoteVolume = parseFloat (raw_quoteVolume tickerData),
           highPrice = parseFloat (raw_highPrice tickerData),
           lowPrice = parseFloat (raw_lowPrice tickerData),
           volatility = volatility,
           signal = signal,
           raw = tickerData \<rparr>)"

definition analyzeTickerArray ::
  "(string \<Rightarrow> jsnum) \<Rightarrow> raw_ticker list \<Rightarrow> enriched_ticker list" where
  "analyzeTickerArray parseFloat tickerDataArray =
     map (\<lambda>ticker. analyzeTicker parseFloat ticker) tickerDataArray"

section \<open>Top gainers\<close>

text \<open>
  \<open>Array.prototype.sort\<close> with a comparator is stable: an element moves behind another
  one only when the comparator says it is greater. A comparator result that is
  not-a-number counts as zero. It is modelled as insertion from the right, which calls
  the comparator as \<open>cmp x y\<close> with \<open>x\<close> the element that came first in the array.
\<close>

fun sort_insert :: "('a \<Rightarrow> 'a \<Rightarrow> jsnum) \<Rightarrow> 'a \<Rightarrow> 'a list \<Rightarrow> 'a list" where
  "sort_insert cmp x [] = [x]"
| "sort_insert cmp x (y # ys) =
     (if js_gt (cmp x y) (Fin 0) then y # sort_insert cmp x ys else x # y # ys)"

definition array_sort :: "('a \<Rightarrow> 'a \<Rightarrow> jsnum) \<Rightarrow> 'a list \<Rightarrow> 'a list" where
  "array_sort cmp xs = foldr (sort_insert cmp) xs []"

text \<open>
  \<open>xs.slice(0, end)\<close>: the end is converted to an integer by truncation (not-a-number
  becomes 0); a negative end counts from the end of the array; the result is clipped
  to the array.
\<close>

definition array_slice0 :: "'a list \<Rightarrow> jsnum \<Rightarrow> 'a list" where
  "array_slice0 xs endArg =
     (case endArg of
        NaN \<Rightarrow> []
      | NegInf \<Rightarrow> []
      | PosInf \<Rightarrow> xs
      | Fin r \<Rightarrow>
          (let relativeEnd = (if r < 0 then \<lceil>r\<rceil> else \<lfloor>r\<rfloor>);
               len = int (length xs);
               final = (if relativeEnd < 0 then max (len + relativeEnd) 0
                        else min relativeEnd len)
           in take (nat final) xs))"

text \<open>
  \<open>getTopGainers(analyzedData, limit = 5)\<close>: the limit is whatever number the caller
  passes, with no check; a caller that omits it passes 5.
\<close>

definition getTopGainers :: "enriched_ticker list \<Rightarrow> jsnum \<Rightarrow> enriched_ticker list" where
  "getTopGainers analyzedData limit =
     array_slice0
       (array_sort (\<lambda>a b. js_sub (priceChangePercent b) (priceChangePercent a))
          (filter (\<lambda>item. js_gt (priceChangePercent item) (Fin 0)) analyzedData))
       limit"

section \<open>Signal diffing\<close>

definition getActiveSignals :: "enriched_ticker list \<Rightarrow> enriched_ticker list" where
  "getActiveSignals analyzedData =
     filter (\<lambda>item. type (signal item) \<noteq> NEUTRAL) analyzedData"

text \<open>
  \<open>detectNewSignals(previousData, currentData)\<close>. The previous data is \<open>None\<close> for a
  missing value (\<open>null\<close>, \<open>undefined\<close>), which the guard treats like the empty array.
  The \<open>Map\<close> is filled in array order, so a later entry of a symbol overwrites an
  earlier one; the output array is built by appending.
\<close>

definition previousSignals_of :: "enriched_ticker list \<Rightarrow> (string \<rightharpoonup> signal_type)" where
  "previousSignals_of previousData =
     fold (\<lambda>item previousSignals.
             if type (signal item) \<noteq> NEUTRAL
             then previousSignals(symbol item \<mapsto> type (signal item))
             else previousSignals)
          previousData Map.empty"

definition detectNewSignals ::
  "enriched_ticker list option \<Rightarrow> enriched_ticker list \<Rightarrow> enriched_ticker list" where
  "detectNewSignals previousData currentData =
     (case previousData of
        None \<Rightarrow> getActiveSignals currentData
      | Some previous \<Rightarrow>
          if length previous = 0 then getActiveSignals currentData
          else
            (let previousSignals = previousSignals_of previous
             in fold (\<lambda>item newSignals.
                        if type (signal item) \<noteq> NEUTRAL then
                          (let previousSignal = previousSignals (symbol item)
                           in if previousSignal = None \<or>
                                 previousSignal \<noteq> Some (type (signal item))
                              then newSignals @ [item] else newSignals)
                        else newSignals)
                     currentData []))"

section \<open>The pipeline\<close>

text \<open>
  \<open>processData\<close> reads and replaces the module variable \<open>previousAnalyzedData\<close>
  (initially the empty array) and triggers events on the document. The model takes the
  variable's value and returns its new value with the events in the order they are
  triggered.
\<close>

datatype event =
  dataAnalyzed "enriched_ticker list"
| topGainersUpdated "enriched_ticker list"
| newSignalsDetected "enriched_ticker list"

definition processData ::
  "(string \<Rightarrow> jsnum) \<Rightarrow> enriched_ticker list \<Rightarrow> raw_ticker list \<Rightarrow>
     enriched_ticker list \<times> event list" where
  "processData parseFloat previousAnalyzedData tickerDataArray =
     (let analyzedData = analyzeTickerArray parseFloat tickerDataArray;
          newSignals = detectNewSignals (Some previousAnalyzedData) analyzedData;
          topGainers = getTopGainers analyzedData (Fin 5)
      in (analyzedData,
          [dataAnalyzed analyzedData, topGainersUpdated topGainers] @
          (if length newSignals > 0 then [newSignalsDetected newSignals] else [])))"

section \<open>Sample data\<close>

text \<open>
  The examples below run the engine on concrete tickers. \<open>sample_parseFloat\<close> gives the
  value of \<open>parseFloat\<close> at the decimal texts the examples use; any other text in them
  (\<open>abc\<close>) is malformed, where \<open>parseFloat\<close> returns not-a-number. \<open>sample_raw\<close>
  builds a raw ticker from its symbol, its price change percentage and its quote
  volume, the other fields being the text \<open>1\<close>.
\<close>

definition sample_numbers :: "(string \<times> jsnum) list" where
  "sample_numbers =
     [(''1'', Fin 1), (''2'', Fin 2), (''4'', Fin 4), (''5'', Fin 5),
      (''-1'', Fin (- 1)), (''-5'', Fin (- 5)),
      (''3.0'', Fin 3), (''-3.0'', Fin (- 3)),
      (''3.0001'', Fin (30001 / 10000)), (''-3.0001'', Fin (- 30001 / 10000)),
      (''1000000'', Fin 1000000), (''1000001'', Fin 1000001), (''2000000'', Fin 2000000)]"

definition sample_parseFloat :: "string \<Rightarrow> jsnum" where
  "sample_parseFloat s = (case map_of sample_numbers s of Some v \<Rightarrow> v | None \<Rightarrow> NaN)"

definition sample_raw :: "string \<Rightarrow> string \<Rightarrow> string \<Rightarrow> raw_ticker" where
  "sample_raw sy pc qv =
     \<lparr> raw_symbol = sy, raw_lastPrice = ''1'', raw_priceChange = ''1'',
       raw_priceChangePercent = pc, raw_volume = ''1'', raw_quoteVolume = qv,
       raw_highPrice = ''1'', raw_lowPrice = ''1'' \<rparr>"

definition sample_ticker :: "string \<Rightarrow> string \<Rightarrow> string \<Rightarrow> enriched_ticker" where
  "sample_ticker sy pc qv = analyzeTicker sample_parseFloat (sample_raw sy pc qv)"

section \<open>Facts about rounding to a double\<close>

lemma round_half_even_bounds: "\<lfloor>y\<rfloor> \<le> round_half_even y" "round_half_even y \<le> \<lfloor>y\<rfloor> + 1"
  by (simp_all add: round_half_even_def Let_def)

lemma round_half_even_of_int [simp]: "round_half_even (of_int m) = m"
  by (simp add: round_half_even_def)

lemma round_half_even_mono:
  assumes "x \<le> y"
  shows "round_half_even x \<le> round_half_even y"
proof (cases "\<lfloor>x\<rfloor> = \<lfloor>y\<rfloor>")
  case True
  with assms have "x - of_int \<lfloor>x\<rfloor> \<le> y - of_int \<lfloor>y\<rfloor>" by simp
  with True show ?thesis by (auto simp add: round_half_even_def Let_def)
next
  case False
  from assms have "\<lfloor>x\<rfloor> \<le> \<lfloor>y\<rfloor>" by (rule floor_mono)
  with False have "\<lfloor>x\<rfloor> + 1 \<le> \<lfloor>y\<rfloor>" by simp
  with round_half_even_bounds(2) [of x] round_half_even_bounds(1) [of y]
  show ?thesis by linarith
qed

lemma round_half_even_le: "y \<le> of_int N \<Longrightarrow> round_half_even y \<le> N"
  using round_half_even_mono [of y "of_int N"] by simp

lemma round_half_even_ge: "of_int N \<le> y \<Longrightarrow> N \<le> round_half_even y"
  using round_half_even_mono [of "of_int N" y] by simp


lemma exponent_search_range:
  "e \<le> exponent_search n e y" "exponent_search n e y \<le> e + int n"
proof (induction n arbitrary: e)
  case 0
  { case 1 show ?case by simp }
  { case 2 show ?case by simp }
next
  case (Suc n)
  { case 1 from Suc(1) [of "e + 1"] show ?case by simp }
  { case 2 from Suc(2) [of "e + 1"] show ?case by simp }
qed

lemma exponent_search_upper:
  "exponent_search n e y < e + int n \<Longrightarrow> y < 2 powi (exponent_search n e y + 1)"
proof (induction n arbitrary: e)
  case 0
  then show ?case by simp
next
  case (Suc n)
  show ?case
  proof (cases "y < 2 powi (e + 1)")
    case True
    then show ?thesis by simp
  next
    case False
    with Suc.prems have "exponent_search n (e + 1) y < (e + 1) + int n" by simp
    then have "y < 2 powi (exponent_search n (e + 1) y + 1)" by (rule Suc.IH)
    with False show ?thesis by simp
  qed
qed

lemma exponent_search_lower:
  "e < exponent_search n e y \<Longrightarrow> 2 powi (exponent_search n e y) \<le> y"
proof (induction n arbitrary: e)
  case 0
  then show ?case by simp
next
  case (Suc n)
  show ?case
  proof (cases "y < 2 powi (e + 1)")
    case True
    with Suc.prems show ?thesis by simp
  next
    case False
    show ?thesis
    proof (cases "e + 1 < exponent_search n (e + 1) y")
      case True
      then have "2 powi (exponent_search n (e + 1) y) \<le> y" by (rule Suc.IH)
      with False show ?thesis by simp
    next
      case b: False
      with exponent_search_range(1) [where e = "e + 1" and n = n and y = y]
      have "exponent_search n (e + 1) y = e + 1" by simp
      with False show ?thesis by simp
    qed
  qed
qed

lemma exponent_search_mono:
  "y \<le> y' \<Longrightarrow> exponent_search n e y \<le> exponent_search n e y'"
proof (induction n arbitrary: e)
  case 0
  then show ?case by simp
next
  case (Suc n)
  show ?case
  proof (cases "y' < 2 powi (e + 1)")
    case True
    with Suc.prems have "y < 2 powi (e + 1)" by simp
    with True show ?thesis by simp
  next
    case False
    show ?thesis
    proof (cases "y < 2 powi (e + 1)")
      case True
      with False exponent_search_range(1) [where e = "e + 1" and n = n and y = y'] show ?thesis by simp
    next
      case b: False
      with False Suc.IH [OF Suc.prems, of "e + 1"] show ?thesis by simp
    qed
  qed
qed

lemma pow2_strict_mono: "m < n \<Longrightarrow> (2::real) powi m < 2 powi n"
  by (rule power_int_strict_increasing) simp_all

lemma pow2_mono: "m \<le> n \<Longrightarrow> (2::real) powi m \<le> 2 powi n"
  by (rule power_int_increasing) simp_all

lemma pow2_add: "(2::real) powi (m + n) = 2 powi m * 2 powi n"
  by (rule power_int_add) simp

lemma double_exponent_range: "- 1022 \<le> double_exponent x" "double_exponent x \<le> 1024"
  using exponent_search_range [where n = 2046 and e = "- 1022" and y = "\<bar>x\<bar>"] by (simp_all add: double_exponent_def)

lemma double_exponent_upper:
  "double_exponent x < 1024 \<Longrightarrow> \<bar>x\<bar> < 2 powi (double_exponent x + 1)"
  using exponent_search_upper [where n = 2046 and e = "- 1022" and y = "\<bar>x\<bar>"] by (simp add: double_exponent_def)

lemma double_exponent_lower:
  "- 1022 < double_exponent x \<Longrightarrow> 2 powi (double_exponent x) \<le> \<bar>x\<bar>"
  using exponent_search_lower [where n = 2046 and e = "- 1022" and y = "\<bar>x\<bar>"] by (simp add: double_exponent_def)

lemma double_exponent_mono: "\<bar>x\<bar> \<le> \<bar>y\<bar> \<Longrightarrow> double_exponent x \<le> double_exponent y"
  unfolding double_exponent_def by (rule exponent_search_mono)

lemma double_exponent_eq:
  assumes "2 powi k \<le> \<bar>x\<bar>" and "\<bar>x\<bar> < 2 powi (k + 1)" and "- 1022 \<le> k" and "k \<le> 1023"
  shows "double_exponent x = k"
proof -
  let ?E = "double_exponent x"
  have "?E < 1024"
  proof (rule ccontr)
    assume "\<not> ?E < 1024"
    with double_exponent_range(2) [of x] have E: "?E = 1024" by simp
    then have "2 powi ?E \<le> \<bar>x\<bar>" by (intro double_exponent_lower) simp
    with assms(2) have "(2::real) powi ?E < 2 powi (k + 1)" by simp
    moreover from E assms(4) have "(2::real) powi (k + 1) \<le> 2 powi ?E" by (intro pow2_mono) simp
    ultimately show False by simp
  qed
  then have u: "\<bar>x\<bar> < 2 powi (?E + 1)" by (rule double_exponent_upper)
  with assms(1) have "(2::real) powi k < 2 powi (?E + 1)" by simp
  then have "k < ?E + 1" using pow2_mono [of "?E + 1" k] by (cases "k < ?E + 1") simp_all
  moreover have "?E \<le> k"
  proof (cases "- 1022 < ?E")
    case True
    then have "2 powi ?E \<le> \<bar>x\<bar>" by (rule double_exponent_lower)
    with assms(2) have "(2::real) powi ?E < 2 powi (k + 1)" by simp
    then have "?E < k + 1" using pow2_mono [of "k + 1" ?E] by (cases "?E < k + 1") simp_all
    then show ?thesis by simp
  next
    case False
    with double_exponent_range(1) [of x] assms(3) show ?thesis by simp
  qed
  ultimately show ?thesis by simp
qed

lemma round_double_nonneg:
  assumes "0 \<le> x"
  shows "0 \<le> round_double x"
proof -
  let ?q = "(2::real) powi (double_exponent x - 52)"
  have q: "0 < ?q" by simp
  with assms have "of_int 0 \<le> x / ?q" by simp
  then have "0 \<le> round_half_even (x / ?q)" by (rule round_half_even_ge)
  with q show ?thesis by (simp add: round_double_def Let_def)
qed

lemma round_double_le_pow:
  assumes "0 \<le> x" and "x < 2 powi (double_exponent x + 1)"
  shows "round_double x \<le> 2 powi (double_exponent x + 1)"
proof -
  let ?E = "double_exponent x"
  let ?q = "(2::real) powi (?E - 52)"
  have q: "0 < ?q" by simp
  have "(2::real) powi (53 + (?E - 52)) = 2 powi 53 * ?q" by (rule pow2_add)
  moreover have "53 + (?E - 52) = ?E + 1" by simp
  ultimately have "(2::real) powi (?E + 1) = 2 powi 53 * ?q" by (simp only:)
  then have p: "(2::real) powi (?E + 1) = of_int (2 ^ 53) * ?q" by simp
  with assms(2) q have "x / ?q \<le> of_int (2 ^ 53)"
    by (simp add: pos_divide_le_eq)
  then have "round_half_even (x / ?q) \<le> 2 ^ 53" by (rule round_half_even_le)
  then have "(of_int (round_half_even (x / ?q)) :: real) \<le> of_int (2 ^ 53)"
    by (simp only: of_int_le_iff)
  with q have "of_int (round_half_even (x / ?q)) * ?q \<le> of_int (2 ^ 53) * ?q"
    by (simp only: mult_le_cancel_right_pos)
  then show ?thesis unfolding p by (simp add: round_double_def Let_def)
qed

lemma round_double_ge_pow:
  assumes "2 powi (double_exponent x) \<le> x"
  shows "2 powi (double_exponent x) \<le> round_double x"
proof -
  let ?E = "double_exponent x"
  let ?q = "(2::real) powi (?E - 52)"
  have q: "0 < ?q" by simp
  have "(2::real) powi (52 + (?E - 52)) = 2 powi 52 * ?q" by (rule pow2_add)
  moreover have "52 + (?E - 52) = ?E" by simp
  ultimately have "(2::real) powi ?E = 2 powi 52 * ?q" by (simp only:)
  then have p: "(2::real) powi ?E = of_int (2 ^ 52) * ?q" by simp
  with assms q have "of_int (2 ^ 52) \<le> x / ?q"
    by (simp add: pos_le_divide_eq)
  then have "2 ^ 52 \<le> round_half_even (x / ?q)" by (rule round_half_even_ge)
  then have "(of_int (2 ^ 52) :: real) \<le> of_int (round_half_even (x / ?q))"
    by (simp only: of_int_le_iff)
  with q have "of_int (2 ^ 52) * ?q \<le> of_int (round_half_even (x / ?q)) * ?q"
    by (simp only: mult_le_cancel_right_pos)
  then show ?thesis unfolding p by (simp add: round_double_def Let_def)
qed

lemma round_double_mono:
  assumes "0 \<le> x" and "x \<le> y"
  shows "round_double x \<le> round_double y"
proof -
  let ?Ex = "double_exponent x" and ?Ey = "double_exponent y"
  from assms have y: "0 \<le> y" by simp
  from assms have "\<bar>x\<bar> \<le> \<bar>y\<bar>" by simp
  then have E: "?Ex \<le> ?Ey" by (rule double_exponent_mono)
  show ?thesis
  proof (cases "?Ex = ?Ey")
    case True
    let ?q = "(2::real) powi (?Ey - 52)"
    have q: "0 < ?q" by simp
    with assms(2) have "x / ?q \<le> y / ?q" by (simp add: divide_right_mono)
    then have "round_half_even (x / ?q) \<le> round_half_even (y / ?q)"
      by (rule round_half_even_mono)
    then have "(of_int (round_half_even (x / ?q)) :: real) \<le> of_int (round_half_even (y / ?q))"
      by (simp only: of_int_le_iff)
    with q have "of_int (round_half_even (x / ?q)) * ?q \<le> of_int (round_half_even (y / ?q)) * ?q"
      by (simp only: mult_le_cancel_right_pos)
    with True show ?thesis by (simp add: round_double_def Let_def)
  next
    case False
    with E have l: "?Ex < ?Ey" by simp
    with double_exponent_range(2) [of y] have "?Ex < 1024" by simp
    then have "\<bar>x\<bar> < 2 powi (?Ex + 1)" by (rule double_exponent_upper)
    with assms(1) have "x < 2 powi (?Ex + 1)" by simp
    with assms(1) have a: "round_double x \<le> 2 powi (?Ex + 1)" by (rule round_double_le_pow)
    from l have b: "(2::real) powi (?Ex + 1) \<le> 2 powi ?Ey" by (intro pow2_mono) simp
    from l double_exponent_range(1) [of x] have "- 1022 < ?Ey" by simp
    then have "2 powi ?Ey \<le> \<bar>y\<bar>" by (rule double_exponent_lower)
    with y have "2 powi ?Ey \<le> y" by simp
    then have "2 powi ?Ey \<le> round_double y" by (rule round_double_ge_pow)
    with a b show ?thesis by linarith
  qed
qed

lemma round_double_eval:
  assumes "2 powi k \<le> \<bar>x\<bar>" and "\<bar>x\<bar> < 2 powi (k + 1)" and "- 1022 \<le> k" and "k \<le> 1023"
  shows "round_double x = of_int (round_half_even (x / 2 powi (k - 52))) * 2 powi (k - 52)"
  using double_exponent_eq [OF assms] by (simp add: round_double_def Let_def)

lemma round_double_fixed:
  assumes "2 powi k \<le> \<bar>x\<bar>" and "\<bar>x\<bar> < 2 powi (k + 1)" and "- 1022 \<le> k" and "k \<le> 1023"
    and "x / 2 powi (k - 52) \<in> \<int>"
  shows "round_double x = x"
proof -
  from assms(5) obtain m where m: "x / 2 powi (k - 52) = of_int m" by (rule Ints_cases)
  have "round_double x = of_int (round_half_even (x / 2 powi (k - 52))) * 2 powi (k - 52)"
    using assms(1-4) by (rule round_double_eval)
  also have "\<dots> = x / 2 powi (k - 52) * 2 powi (k - 52)" unfolding m by simp
  also have "\<dots> = x" by simp
  finally show ?thesis .
qed

lemma round_double_0 [simp]: "round_double 0 = 0"
  using round_half_even_of_int [of 0] by (simp add: round_double_def)

lemma round_double_constants:
  "round_double (1 / 2) = 1 / 2" "round_double 1 = 1" "round_double 5 = 5"
  "round_double 30 = 30" "round_double 50 = 50" "round_double 70 = 70"
  "round_double 100 = 100" "round_double 500 = 500"
  "round_double (255 / 256) = 255 / 256" "round_double (8925 / 128) = 8925 / 128"
proof -
  show "round_double (1 / 2) = 1 / 2" by (rule round_double_fixed [where k = "- 1"]) simp_all
  show "round_double 1 = 1" by (rule round_double_fixed [where k = 0]) simp_all
  show "round_double 5 = 5" by (rule round_double_fixed [where k = 2]) simp_all
  show "round_double 30 = 30" by (rule round_double_fixed [where k = 4]) simp_all
  show "round_double 50 = 50" by (rule round_double_fixed [where k = 5]) simp_all
  show "round_double 70 = 70" by (rule round_double_fixed [where k = 6]) simp_all
  show "round_double 100 = 100" by (rule round_double_fixed [where k = 6]) simp_all
  show "round_double 500 = 500" by (rule round_double_fixed [where k = 8]) simp_all
  show "round_double (255 / 256) = 255 / 256"
    by (rule round_double_fixed [where k = "- 1"]) simp_all
  show "round_double (8925 / 128) = 8925 / 128"
    by (rule round_double_fixed [where k = 6]) simp_all
qed

section \<open>Facts about the volatility score\<close>

lemmas config_defs = WHALE_THRESHOLD_PRICE_CHANGE_def WHALE_THRESHOLD_VOLUME_def
  PANIC_THRESHOLD_PRICE_CHANGE_def VOLATILITY_HIGH_THRESHOLD_def VOLATILITY_MEDIUM_THRESHOLD_def

lemma clamp_Fin: "js_min (Fin 100) (js_max (Fin 0) (Fin r)) = Fin (min 100 (max 0 r))"
  by (simp add: js_min_def js_max_def min_def max_def)

lemma round_bounds:
  fixes x :: real
  assumes "0 \<le> x" and "x \<le> of_int n"
  shows "0 \<le> \<lfloor>x + 1 / 2\<rfloor>" and "\<lfloor>x + 1 / 2\<rfloor> \<le> n"
proof -
  from assms(1) show "0 \<le> \<lfloor>x + 1 / 2\<rfloor>" by (simp add: le_floor_iff)
  from assms(2) have "x + 1 / 2 < of_int n + 1" by simp
  then show "\<lfloor>x + 1 / 2\<rfloor> \<le> n" by (simp add: floor_le_iff)
qed

lemma round_mono:
  fixes x y :: real
  shows "x \<le> y \<Longrightarrow> \<lfloor>x + 1 / 2\<rfloor> \<le> \<lfloor>y + 1 / 2\<rfloor>"
  by (simp add: floor_mono)

lemma clamp_of_int:
  "0 \<le> n \<Longrightarrow> n \<le> 100 \<Longrightarrow> min 100 (max 0 (of_int n :: real)) = of_int n"
  by (simp add: min_def max_def)

lemma sample_parseFloat_simps:
  "sample_parseFloat ''1'' = Fin 1" "sample_parseFloat ''2'' = Fin 2"
  "sample_parseFloat ''4'' = Fin 4" "sample_parseFloat ''5'' = Fin 5"
  "sample_parseFloat ''-1'' = Fin (- 1)" "sample_parseFloat ''-5'' = Fin (- 5)"
  "sample_parseFloat ''3.0'' = Fin 3" "sample_parseFloat ''-3.0'' = Fin (- 3)"
  "sample_parseFloat ''3.0001'' = Fin (30001 / 10000)"
  "sample_parseFloat ''-3.0001'' = Fin (- 30001 / 10000)"
  "sample_parseFloat ''1000000'' = Fin 1000000"
  "sample_parseFloat ''1000001'' = Fin 1000001"
  "sample_parseFloat ''2000000'' = Fin 2000000"
  "sample_parseFloat ''abc'' = NaN"
  by (simp_all add: sample_parseFloat_def sample_numbers_def)

lemma double_of_real_nonneg:
  assumes "0 \<le> x"
  shows "double_of_real x = PosInf \<or> double_of_real x = Fin (round_double x)"
  using assms by (simp add: double_of_real_def Let_def signed_inf_def)

lemma double_of_real_upto:
  assumes "0 \<le> x" and "x \<le> c" and "round_double c = c" and "c < 2 ^ 1024"
  shows "double_of_real x = Fin (round_double x)"
    and "0 \<le> round_double x" and "round_double x \<le> c"
proof -
  from assms(1) show n: "0 \<le> round_double x" by (rule round_double_nonneg)
  from assms(1,2) have "round_double x \<le> round_double c" by (rule round_double_mono)
  with assms(3) show u: "round_double x \<le> c" by simp
  with n assms(4) have "\<not> 2 ^ 1024 \<le> \<bar>round_double x\<bar>" by simp
  then show "double_of_real x = Fin (round_double x)"
    by (simp add: double_of_real_def Let_def)
qed

lemma double_of_real_fixed:
  assumes "round_double c = c" and "0 \<le> c" and "c < 2 ^ 1024"
  shows "double_of_real c = Fin c"
  using double_of_real_upto(1) [OF assms(2) order_refl assms(1,3)] assms(1) by simp

lemma double_of_real_from:
  assumes "0 \<le> c" and "c \<le> x" and "round_double c = c"
  shows "double_of_real x = PosInf \<or> (\<exists>y. double_of_real x = Fin y \<and> c \<le> y)"
proof -
  from assms(1,2) have "round_double c \<le> round_double x" by (rule round_double_mono)
  with assms(3) have "c \<le> round_double x" by simp
  moreover from assms(1,2) have "0 \<le> x" by simp
  then have "double_of_real x = PosInf \<or> double_of_real x = Fin (round_double x)"
    by (rule double_of_real_nonneg)
  ultimately show ?thesis by blast
qed

lemma double_of_real_eval:
  assumes "0 \<le> x" and "2 powi k \<le> x" and "x < 2 powi (k + 1)" and "- 1022 \<le> k" and "k \<le> 1022"
  shows "double_of_real x =
           Fin (of_int (round_half_even (x / 2 powi (k - 52))) * 2 powi (k - 52))"
proof -
  from assms have a: "2 powi k \<le> \<bar>x\<bar>" "\<bar>x\<bar> < 2 powi (k + 1)" "k \<le> 1023" by simp_all
  have E: "double_exponent x = k" using a(1,2) assms(4) a(3) by (rule double_exponent_eq)
  from assms(3) have "x < 2 powi (double_exponent x + 1)" unfolding E .
  with assms(1) have "round_double x \<le> 2 powi (double_exponent x + 1)"
    by (rule round_double_le_pow)
  then have "round_double x \<le> 2 powi (k + 1)" unfolding E .
  also from assms(5) have "(2::real) powi (k + 1) \<le> 2 powi 1023" by (intro pow2_mono) simp
  also have "(2::real) powi 1023 < 2 ^ 1024" by simp
  finally have "round_double x < 2 ^ 1024" .
  moreover from assms(1) have "0 \<le> round_double x" by (rule round_double_nonneg)
  ultimately have "\<not> 2 ^ 1024 \<le> \<bar>round_double x\<bar>" by simp
  then have "double_of_real x = Fin (round_double x)" by (simp add: double_of_real_def Let_def)
  then show ?thesis unfolding round_double_eval [OF a(1,2) assms(4) a(3)] .
qed

text \<open>The scaled change of a band: \<open>absChange / d * k\<close>.\<close>

lemma band_product_upto:
  assumes "0 \<le> x" and "x \<le> d" and "0 < d" and "round_double k = k" and "0 \<le> k"
    and "k < 2 ^ 1024"
  shows "js_mul (js_div (Fin x) (Fin d)) (Fin k) =
           Fin (round_double (round_double (x / d) * k))"
    and "0 \<le> round_double (round_double (x / d) * k)"
    and "round_double (round_double (x / d) * k) \<le> k"
proof -
  from assms(1,2,3) have q: "0 \<le> x / d" "x / d \<le> 1" by simp_all
  have one: "(1::real) < 2 ^ 1024" by simp
  note d = double_of_real_upto [OF q round_double_constants(2) one]
  from d(2,3) assms(5) have p: "0 \<le> round_double (x / d) * k" "round_double (x / d) * k \<le> k"
    by (simp_all add: mult_left_le_one_le)
  note m = double_of_real_upto [OF p assms(4,6)]
  from assms(3) have "js_div (Fin x) (Fin d) = Fin (round_double (x / d))"
    by (simp add: d(1))
  then show "js_mul (js_div (Fin x) (Fin d)) (Fin k) =
           Fin (round_double (round_double (x / d) * k))"
    by (simp add: m(1))
  from m(2) show "0 \<le> round_double (round_double (x / d) * k)" .
  from m(3) show "round_double (round_double (x / d) * k) \<le> k" .
qed

lemma band_product_from:
  assumes "0 \<le> c" and "c \<le> x / d" and "0 < d" and "0 < k" and "round_double c = c"
    and "round_double (c * k) = c * k"
  shows "js_mul (js_div (Fin x) (Fin d)) (Fin k) = PosInf \<or>
         (\<exists>z. js_mul (js_div (Fin x) (Fin d)) (Fin k) = Fin z \<and> c * k \<le> z)"
proof -
  from assms(3) have dv: "js_div (Fin x) (Fin d) = double_of_real (x / d)" by simp
  from double_of_real_from [OF assms(1,2,5)] show ?thesis
  proof
    assume "double_of_real (x / d) = PosInf"
    with assms(4) show ?thesis unfolding dv by (simp add: signed_inf_def)
  next
    assume "\<exists>y. double_of_real (x / d) = Fin y \<and> c \<le> y"
    then obtain y where y: "double_of_real (x / d) = Fin y" "c \<le> y" by blast
    from assms(1,4) have "0 \<le> c * k" by simp
    moreover from y(2) assms(4) have "c * k \<le> y * k" by simp
    ultimately have "double_of_real (y * k) = PosInf \<or>
        (\<exists>z. double_of_real (y * k) = Fin z \<and> c * k \<le> z)"
      using assms(6) by (rule double_of_real_from)
    then show ?thesis unfolding dv y(1) by simp
  qed
qed


lemma calculateVolatilityScore_Fin:
  "calculateVolatilityScore (Fin a) =
     (if 5 \<le> \<bar>a\<bar> then
        \<lparr>score = js_min (Fin 100) (js_max (Fin 0)
                  (js_min (Fin 100)
                     (js_round (js_mul (js_div (Fin \<bar>a\<bar>) (Fin 10)) (Fin 100))))),
         level = ''high''\<rparr>
      else if 2 \<le> \<bar>a\<bar> then
        \<lparr>score = js_min (Fin 100) (js_max (Fin 0)
                  (js_round (js_mul (js_div (Fin \<bar>a\<bar>) (Fin 5)) (Fin 70)))),
         level = ''medium''\<rparr>
      else
        \<lparr>score = js_min (Fin 100) (js_max (Fin 0)
                  (js_round (js_mul (js_div (Fin \<bar>a\<bar>) (Fin 2)) (Fin 30)))),
         level = ''low''\<rparr>)"
  by (simp add: calculateVolatilityScore_def config_defs js_ge_def
      del: js_div.simps js_mul.simps js_round.simps)

lemma js_min_100_Fin:
  "r \<le> 100 \<Longrightarrow> js_min (Fin 100) (Fin r) = Fin r"
  "100 \<le> r \<Longrightarrow> js_min (Fin 100) (Fin r) = Fin 100"
  by (auto simp add: js_min_def)

lemma js_round_Fin: "js_round (Fin z) = Fin (of_int \<lfloor>z + 1 / 2\<rfloor>)"
  by simp

lemma js_round_100: "js_round (Fin 100) = Fin (of_int 100)"
  by simp

lemma clamp_round_min:
  assumes "m = PosInf \<or> (\<exists>z. m = Fin z \<and> 0 \<le> z)"
  shows "js_min (Fin 100) (js_max (Fin 0) (js_min (Fin 100) (js_round m))) =
           js_round (js_min (Fin 100) m)"
    and "\<exists>n::int. 0 \<le> n \<and> n \<le> 100 \<and> js_round (js_min (Fin 100) m) = Fin (of_int n)"
proof -
  have inf: "js_round (js_min (Fin 100) PosInf) = Fin (of_int 100)"
    by (simp add: js_min_def)
  have "js_min (Fin 100) (js_max (Fin 0) (js_min (Fin 100) (js_round m))) =
           js_round (js_min (Fin 100) m) \<and>
        (\<exists>n::int. 0 \<le> n \<and> n \<le> 100 \<and> js_round (js_min (Fin 100) m) = Fin (of_int n))"
    using assms
  proof
    assume m: "m = PosInf"
    have "js_min (Fin 100) (js_max (Fin 0) (js_min (Fin 100) (js_round PosInf))) = Fin (of_int 100)"
      by (simp add: js_min_def js_max_def)
    with inf show ?thesis unfolding m by (intro conjI exI [of _ 100]) simp_all
  next
    assume "\<exists>z. m = Fin z \<and> 0 \<le> z"
    then obtain z where m: "m = Fin z" and z: "0 \<le> z" by blast
    let ?n = "\<lfloor>z + 1 / 2\<rfloor>"
    show ?thesis
    proof (cases "z < 100")
      case True
      then have "z \<le> of_int 100" by simp
      with z have n: "0 \<le> ?n" "?n \<le> 100" by (rule round_bounds)+
      from True have "z \<le> 100" by simp
      then have a: "js_round (js_min (Fin 100) (Fin z)) = Fin (of_int ?n)"
        by (simp only: js_min_100_Fin js_round_Fin)
      from n have "(of_int ?n :: real) \<le> 100" by simp
      then have "js_min (Fin 100) (js_round (Fin z)) = Fin (of_int ?n)"
        by (simp only: js_min_100_Fin js_round_Fin)
      then have "js_min (Fin 100) (js_max (Fin 0) (js_min (Fin 100) (js_round (Fin z)))) =
                   Fin (min 100 (max 0 (of_int ?n)))"
        by (simp only: clamp_Fin)
      also from n have "\<dots> = Fin (of_int ?n)" by (simp only: clamp_of_int)
      finally have b: "js_min (Fin 100) (js_max (Fin 0) (js_min (Fin 100) (js_round (Fin z)))) =
                   Fin (of_int ?n)" .
      from n a have "\<exists>k::int. 0 \<le> k \<and> k \<le> 100 \<and>
          js_round (js_min (Fin 100) (Fin z)) = Fin (of_int k)" by blast
      with a b show ?thesis unfolding m by (simp only: simp_thms)
    next
      case False
      then have "100 \<le> z" by simp
      then have a: "js_round (js_min (Fin 100) (Fin z)) = Fin (of_int 100)"
        by (simp only: js_min_100_Fin js_round_100)
      from False have "(100::real) + 1 / 2 \<le> z + 1 / 2" by simp
      then have "\<lfloor>(100::real) + 1 / 2\<rfloor> \<le> ?n" by (rule floor_mono)
      moreover have "\<lfloor>(100::real) + 1 / 2\<rfloor> = 100" by simp
      ultimately have "100 \<le> ?n" by (simp only:)
      then have "(100::real) \<le> of_int ?n" by linarith
      then have "js_min (Fin 100) (js_round (Fin z)) = Fin 100"
        by (simp only: js_min_100_Fin js_round_Fin)
      moreover have "js_min (Fin 100) (js_max (Fin 0) (Fin 100)) = Fin (of_int 100)"
        by (simp add: js_min_def js_max_def)
      ultimately have b: "js_min (Fin 100) (js_max (Fin 0) (js_min (Fin 100) (js_round (Fin z)))) =
                   Fin (of_int 100)"
        by (simp only:)
      have "(0::int) \<le> 100 \<and> (100::int) \<le> 100" by simp
      with a have "\<exists>k::int. 0 \<le> k \<and> k \<le> 100 \<and>
          js_round (js_min (Fin 100) (Fin z)) = Fin (of_int k)" by blast
      with a b show ?thesis unfolding m by (simp only: simp_thms)
    qed
  qed
  then show "js_min (Fin 100) (js_max (Fin 0) (js_min (Fin 100) (js_round m))) =
           js_round (js_min (Fin 100) m)"
    and "\<exists>n::int. 0 \<le> n \<and> n \<le> 100 \<and> js_round (js_min (Fin 100) m) = Fin (of_int n)"
    by blast+
qed

lemma high_product:
  assumes "5 \<le> \<bar>a\<bar>"
  shows "js_mul (js_div (Fin \<bar>a\<bar>) (Fin 10)) (Fin 100) = PosInf \<or>
         (\<exists>z. js_mul (js_div (Fin \<bar>a\<bar>) (Fin 10)) (Fin 100) = Fin z \<and> 50 \<le> z)"
proof -
  from assms have "1 / 2 \<le> \<bar>a\<bar> / 10" by simp
  from band_product_from [where c = "1 / 2" and k = 100, OF _ this]
  show ?thesis by (simp add: round_double_constants)
qed

lemma score_high:
  assumes "5 \<le> \<bar>a\<bar>"
  shows "calculateVolatilityScore (Fin a) =
           \<lparr>score = js_round (js_min (Fin 100) (js_mul (js_div (Fin \<bar>a\<bar>) (Fin 10)) (Fin 100))),
            level = ''high''\<rparr>"
    and "\<exists>n::int. 0 \<le> n \<and> n \<le> 100 \<and>
           js_round (js_min (Fin 100) (js_mul (js_div (Fin \<bar>a\<bar>) (Fin 10)) (Fin 100))) =
             Fin (of_int n)"
proof -
  let ?m = "js_mul (js_div (Fin \<bar>a\<bar>) (Fin 10)) (Fin 100)"
  from high_product [OF assms] have m: "?m = PosInf \<or> (\<exists>z. ?m = Fin z \<and> 0 \<le> z)"
    by fastforce
  from assms show "calculateVolatilityScore (Fin a) =
           \<lparr>score = js_round (js_min (Fin 100) ?m), level = ''high''\<rparr>"
    by (simp only: calculateVolatilityScore_Fin if_True clamp_round_min(1) [OF m])
  from m show "\<exists>n::int. 0 \<le> n \<and> n \<le> 100 \<and> js_round (js_min (Fin 100) ?m) = Fin (of_int n)"
    by (rule clamp_round_min(2))
qed

lemma score_saturated:
  assumes "50 \<le> \<bar>a\<bar>"
  shows "score (calculateVolatilityScore (Fin a)) = Fin 100"
proof -
  let ?m = "js_mul (js_div (Fin \<bar>a\<bar>) (Fin 10)) (Fin 100)"
  from assms have "5 \<le> \<bar>a\<bar> / 10" by simp
  from band_product_from [where c = 5 and k = 100, OF _ this]
  have "?m = PosInf \<or> (\<exists>z. ?m = Fin z \<and> 500 \<le> z)"
    by (simp add: round_double_constants)
  then have "js_round (js_min (Fin 100) ?m) = Fin 100"
    by (auto simp add: js_min_def)
  moreover from assms have "5 \<le> \<bar>a\<bar>" by simp
  ultimately show ?thesis by (simp only: score_high(1) volatility_result.simps)
qed


lemma clamp_round_band:
  assumes "0 \<le> z" and "z \<le> of_int k" and "k \<le> 100"
  shows "js_min (Fin 100) (js_max (Fin 0) (js_round (Fin z))) = js_round (Fin z)"
    and "0 \<le> \<lfloor>z + 1 / 2\<rfloor>" and "\<lfloor>z + 1 / 2\<rfloor> \<le> k"
proof -
  from assms(1,2) show n: "0 \<le> \<lfloor>z + 1 / 2\<rfloor>" "\<lfloor>z + 1 / 2\<rfloor> \<le> k" by (rule round_bounds)+
  from n(2) assms(3) have "\<lfloor>z + 1 / 2\<rfloor> \<le> 100" by (rule order_trans)
  with n(1) have "min 100 (max 0 (of_int \<lfloor>z + 1 / 2\<rfloor> :: real)) = of_int \<lfloor>z + 1 / 2\<rfloor>"
    by (intro clamp_of_int)
  then show "js_min (Fin 100) (js_max (Fin 0) (js_round (Fin z))) = js_round (Fin z)"
    by (simp only: js_round_Fin clamp_Fin)
qed

lemma score_medium:
  assumes "2 \<le> \<bar>a\<bar>" and "\<bar>a\<bar> < 5"
  shows "calculateVolatilityScore (Fin a) =
           \<lparr>score = js_round (js_mul (js_div (Fin \<bar>a\<bar>) (Fin 5)) (Fin 70)),
            level = ''medium''\<rparr>"
    and "js_mul (js_div (Fin \<bar>a\<bar>) (Fin 5)) (Fin 70) =
           Fin (round_double (round_double (\<bar>a\<bar> / 5) * 70))"
    and "0 \<le> \<lfloor>round_double (round_double (\<bar>a\<bar> / 5) * 70) + 1 / 2\<rfloor>"
    and "\<lfloor>round_double (round_double (\<bar>a\<bar> / 5) * 70) + 1 / 2\<rfloor> \<le> 70"
proof -
  let ?z = "round_double (round_double (\<bar>a\<bar> / 5) * 70)"
  have k: "(70::real) < 2 ^ 1024" by simp
  from assms(2) have le: "\<bar>a\<bar> \<le> 5" by simp
  have five: "(0::real) < 5" and seventy: "(0::real) \<le> 70" by simp_all
  note b = band_product_upto [OF abs_ge_zero le five round_double_constants(6) seventy k]
  from b(3) have u: "?z \<le> of_int 70" by simp
  have h: "(70::int) \<le> 100" by simp
  note c = clamp_round_band [OF b(2) u h]
  show "js_mul (js_div (Fin \<bar>a\<bar>) (Fin 5)) (Fin 70) = Fin ?z" by (rule b(1))
  from c(2) show "0 \<le> \<lfloor>?z + 1 / 2\<rfloor>" .
  from c(3) show "\<lfloor>?z + 1 / 2\<rfloor> \<le> 70" .
  from assms have "\<not> 5 \<le> \<bar>a\<bar>" by simp
  with assms(1) show "calculateVolatilityScore (Fin a) =
           \<lparr>score = js_round (js_mul (js_div (Fin \<bar>a\<bar>) (Fin 5)) (Fin 70)),
            level = ''medium''\<rparr>"
    by (simp only: calculateVolatilityScore_Fin if_True if_False b(1) c(1))
qed

lemma score_low:
  assumes "\<bar>a\<bar> < 2"
  shows "calculateVolatilityScore (Fin a) =
           \<lparr>score = js_round (js_mul (js_div (Fin \<bar>a\<bar>) (Fin 2)) (Fin 30)),
            level = ''low''\<rparr>"
    and "js_mul (js_div (Fin \<bar>a\<bar>) (Fin 2)) (Fin 30) =
           Fin (round_double (round_double (\<bar>a\<bar> / 2) * 30))"
    and "0 \<le> \<lfloor>round_double (round_double (\<bar>a\<bar> / 2) * 30) + 1 / 2\<rfloor>"
    and "\<lfloor>round_double (round_double (\<bar>a\<bar> / 2) * 30) + 1 / 2\<rfloor> \<le> 30"
proof -
  let ?z = "round_double (round_double (\<bar>a\<bar> / 2) * 30)"
  have k: "(30::real) < 2 ^ 1024" by simp
  from assms have le: "\<bar>a\<bar> \<le> 2" by simp
  have two: "(0::real) < 2" and thirty: "(0::real) \<le> 30" by simp_all
  note b = band_product_upto [OF abs_ge_zero le two round_double_constants(4) thirty k]
  from b(3) have u: "?z \<le> of_int 30" by simp
  have h: "(30::int) \<le> 100" by simp
  note c = clamp_round_band [OF b(2) u h]
  show "js_mul (js_div (Fin \<bar>a\<bar>) (Fin 2)) (Fin 30) = Fin ?z" by (rule b(1))
  from c(2) show "0 \<le> \<lfloor>?z + 1 / 2\<rfloor>" .
  from c(3) show "\<lfloor>?z + 1 / 2\<rfloor> \<le> 30" .
  from assms have "\<not> 5 \<le> \<bar>a\<bar>" "\<not> 2 \<le> \<bar>a\<bar>" by simp_all
  then show "calculateVolatilityScore (Fin a) =
           \<lparr>score = js_round (js_mul (js_div (Fin \<bar>a\<bar>) (Fin 2)) (Fin 30)),
            level = ''low''\<rparr>"
    by (simp only: calculateVolatilityScore_Fin if_False b(1) c(1))
qed

lemma score_low_mono:
  assumes "\<bar>a\<bar> \<le> \<bar>b\<bar>" and "\<bar>b\<bar> < 2"
  shows "js_ge (score (calculateVolatilityScore (Fin b))) (score (calculateVolatilityScore (Fin a)))"
proof -
  let ?za = "round_double (round_double (\<bar>a\<bar> / 2) * 30)"
  let ?zb = "round_double (round_double (\<bar>b\<bar> / 2) * 30)"
  from assms have a: "\<bar>a\<bar> < 2" by simp
  have "0 \<le> \<bar>a\<bar> / 2" by simp
  moreover from assms(1) have "\<bar>a\<bar> / 2 \<le> \<bar>b\<bar> / 2" by simp
  ultimately have r: "round_double (\<bar>a\<bar> / 2) \<le> round_double (\<bar>b\<bar> / 2)"
    by (rule round_double_mono)
  have "0 \<le> round_double (\<bar>a\<bar> / 2)" by (rule round_double_nonneg) simp
  then have "0 \<le> round_double (\<bar>a\<bar> / 2) * 30" by simp
  moreover from r have "round_double (\<bar>a\<bar> / 2) * 30 \<le> round_double (\<bar>b\<bar> / 2) * 30" by simp
  ultimately have "?za \<le> ?zb" by (rule round_double_mono)
  then have "\<lfloor>?za + 1 / 2\<rfloor> \<le> \<lfloor>?zb + 1 / 2\<rfloor>" by (rule round_mono)
  then have "\<not> (of_int \<lfloor>?zb + 1 / 2\<rfloor> :: real) < of_int \<lfloor>?za + 1 / 2\<rfloor>"
    by (simp only: of_int_less_iff not_less)
  then show ?thesis
    by (simp only: score_low(1,2) [OF a] score_low(1,2) [OF assms(2)] volatility_result.simps
        js_round_Fin js_ge_def js_lt.simps jsnum.simps simp_thms)
qed

lemma score_infinite:
  "calculateVolatilityScore PosInf = \<lparr>score = Fin 100, level = ''high''\<rparr>"
  "calculateVolatilityScore NegInf = \<lparr>score = Fin 100, level = ''high''\<rparr>"
  by (simp_all add: calculateVolatilityScore_def config_defs js_ge_def js_min_def js_max_def
      signed_inf_def)

lemma score_NaN: "calculateVolatilityScore NaN = \<lparr>score = NaN, level = ''low''\<rparr>"
  by (simp add: calculateVolatilityScore_def config_defs js_ge_def js_min_def js_max_def)

lemma spec_high_PosInf:
  "js_round (js_min (Fin 100) (js_mul (js_div PosInf (Fin 10)) (Fin 100))) = Fin 100"
  by (simp add: signed_inf_def js_min_def)

lemma score_Fin_range:
  "\<exists>n::int. 0 \<le> n \<and> n \<le> 100 \<and> score (calculateVolatilityScore (Fin a)) = Fin (of_int n)"
proof (cases "5 \<le> \<bar>a\<bar>")
  case True
  then show ?thesis using score_high(2) [OF True] by (simp only: score_high(1) volatility_result.simps)
next
  case high: False
  show ?thesis
  proof (cases "2 \<le> \<bar>a\<bar>")
    case True
    from high have lt: "\<bar>a\<bar> < 5" by simp
    note m = score_medium [OF True lt]
    have "(70::int) \<le> 100" by simp
    with m(4) have "\<lfloor>round_double (round_double (\<bar>a\<bar> / 5) * 70) + 1 / 2\<rfloor> \<le> 100"
      by (rule order_trans)
    with m(3) have "0 \<le> \<lfloor>round_double (round_double (\<bar>a\<bar> / 5) * 70) + 1 / 2\<rfloor> \<and>
        \<lfloor>round_double (round_double (\<bar>a\<bar> / 5) * 70) + 1 / 2\<rfloor> \<le> 100" ..
    then show ?thesis
      unfolding m(1) m(2) volatility_result.simps js_round_Fin by blast
  next
    case False
    then have lt: "\<bar>a\<bar> < 2" by simp
    note l = score_low [OF lt]
    have "(30::int) \<le> 100" by simp
    with l(4) have "\<lfloor>round_double (round_double (\<bar>a\<bar> / 2) * 30) + 1 / 2\<rfloor> \<le> 100"
      by (rule order_trans)
    with l(3) have "0 \<le> \<lfloor>round_double (round_double (\<bar>a\<bar> / 2) * 30) + 1 / 2\<rfloor> \<and>
        \<lfloor>round_double (round_double (\<bar>a\<bar> / 2) * 30) + 1 / 2\<rfloor> \<le> 100" ..
    then show ?thesis
      unfolding l(1) l(2) volatility_result.simps js_round_Fin by blast
  qed
qed


lemma scaled_change_values:
  "js_mul (js_div (Fin (499 / 100)) (Fin 5)) (Fin 70) = Fin (4915960468251607 / 70368744177664)"
  "js_mul (js_div (Fin 5) (Fin 10)) (Fin 100) = Fin 50"
  "js_mul (js_div (Fin 7) (Fin 10)) (Fin 100) = Fin 70"
  "js_mul (js_div (Fin 3) (Fin 5)) (Fin 70) = Fin 42"
  "js_mul (js_div (Fin 1) (Fin 2)) (Fin 30) = Fin 15"
  "js_mul (js_div (Fin (3 / 2)) (Fin 2)) (Fin 30) = Fin (45 / 2)"
  "js_mul (js_div (Fin (23 / 4)) (Fin 10)) (Fin 100) = Fin (8092405580431359 / 140737488355328)"
  "js_mul (js_div (Fin (5404319552844595 / 18014398509481984)) (Fin 2)) (Fin 30) = Fin (9 / 2)"
proof -
  have "js_div (Fin (499 / 100)) (Fin 5) = Fin (4494592428115755 / 4503599627370496)"
    by (simp add: double_of_real_eval [where k = "- 1"] round_half_even_def)
  then show "js_mul (js_div (Fin (499 / 100)) (Fin 5)) (Fin 70) =
      Fin (4915960468251607 / 70368744177664)"
    by (simp add: double_of_real_eval [where k = 6] round_half_even_def)
  have "js_div (Fin 5) (Fin 10) = Fin (1 / 2)"
    by (simp add: double_of_real_eval [where k = "- 1"] round_half_even_def)
  then show "js_mul (js_div (Fin 5) (Fin 10)) (Fin 100) = Fin 50"
    by (simp add: double_of_real_eval [where k = 5] round_half_even_def)
  have "js_div (Fin 7) (Fin 10) = Fin (3152519739159347 / 4503599627370496)"
    by (simp add: double_of_real_eval [where k = "- 1"] round_half_even_def)
  then show "js_mul (js_div (Fin 7) (Fin 10)) (Fin 100) = Fin 70"
    by (simp add: double_of_real_eval [where k = 6] round_half_even_def)
  have "js_div (Fin 3) (Fin 5) = Fin (5404319552844595 / 9007199254740992)"
    by (simp add: double_of_real_eval [where k = "- 1"] round_half_even_def)
  then show "js_mul (js_div (Fin 3) (Fin 5)) (Fin 70) = Fin 42"
    by (simp add: double_of_real_eval [where k = 5] round_half_even_def)
  have "js_div (Fin 1) (Fin 2) = Fin (1 / 2)"
    by (simp add: double_of_real_eval [where k = "- 1"] round_half_even_def)
  then show "js_mul (js_div (Fin 1) (Fin 2)) (Fin 30) = Fin 15"
    by (simp add: double_of_real_eval [where k = 3] round_half_even_def)
  have "js_div (Fin (3 / 2)) (Fin 2) = Fin (3 / 4)"
    by (simp add: double_of_real_eval [where k = "- 1"] round_half_even_def)
  then show "js_mul (js_div (Fin (3 / 2)) (Fin 2)) (Fin 30) = Fin (45 / 2)"
    by (simp add: double_of_real_eval [where k = 4] round_half_even_def)
  have "js_div (Fin (23 / 4)) (Fin 10) = Fin (2589569785738035 / 4503599627370496)"
    by (simp add: double_of_real_eval [where k = "- 1"] round_half_even_def)
  then show "js_mul (js_div (Fin (23 / 4)) (Fin 10)) (Fin 100) =
      Fin (8092405580431359 / 140737488355328)"
    by (simp add: double_of_real_eval [where k = 5] round_half_even_def)
  have "js_div (Fin (5404319552844595 / 18014398509481984)) (Fin 2) =
      Fin (5404319552844595 / 36028797018963968)"
    by (simp add: double_of_real_eval [where k = "- 3"] round_half_even_def)
  then show "js_mul (js_div (Fin (5404319552844595 / 18014398509481984)) (Fin 2)) (Fin 30) =
      Fin (9 / 2)"
    by (simp add: double_of_real_eval [where k = 2] round_half_even_def)
qed

text \<open>
  For every other input, finite or infinite, the score is an integer from 0 to 100.
\<close>

lemma score_range_of_numbers:
  assumes "p \<noteq> NaN"
  shows "\<exists>n::int. 0 \<le> n \<and> n \<le> 100 \<and> score (calculateVolatilityScore p) = Fin (of_int n)"
proof (cases p)
  case (Fin a)
  then show ?thesis using score_Fin_range [of a] by simp
next
  case NaN
  with assms show ?thesis by simp
next
  case NegInf
  have "score (calculateVolatilityScore NegInf) = Fin (of_int 100)" by (simp add: score_infinite)
  with NegInf show ?thesis by (auto intro!: exI [of _ 100])
next
  case PosInf
  have "score (calculateVolatilityScore PosInf) = Fin (of_int 100)" by (simp add: score_infinite)
  with PosInf show ?thesis by (auto intro!: exI [of _ 100])
qed

section \<open>Facts about strings, sample tickers and the pipeline\<close>

lemma string_replace_absent:
  "\<not> sublist pat s \<Longrightarrow> string_replace pat rep s = s"
proof (induction s)
  case Nil
  then have "pat \<noteq> []" by auto
  then show ?case by simp
next
  case (Cons c cs)
  from Cons.prems have "\<not> prefix pat (c # cs)" and "\<not> sublist pat cs"
    by (simp_all add: sublist_Cons_right)
  with Cons.IH show ?case by simp
qed

lemma string_replace_leftmost:
  "\<forall>k<length pre. \<not> prefix pat (drop k (pre @ pat @ post)) \<Longrightarrow>
   string_replace pat rep (pre @ pat @ post) = pre @ rep @ post"
proof (induction pre)
  case Nil
  show ?case
  proof (cases "pat @ post")
    case Nil
    then show ?thesis by simp
  next
    case (Cons c cs)
    have "prefix pat (pat @ post)" by simp
    then have "string_replace pat rep (pat @ post) = rep @ drop (length pat) (pat @ post)"
      unfolding Cons by simp
    then show ?thesis by simp
  qed
next
  case (Cons c pre)
  from Cons.prems have "\<not> prefix pat (drop 0 ((c # pre) @ pat @ post))" by blast
  then have first: "\<not> prefix pat (c # pre @ pat @ post)" by simp
  have "\<forall>k<length pre. \<not> prefix pat (drop k (pre @ pat @ post))"
  proof (intro allI impI)
    fix k assume "k < length pre"
    then have "Suc k < length (c # pre)" by simp
    with Cons.prems have "\<not> prefix pat (drop (Suc k) ((c # pre) @ pat @ post))" by blast
    then show "\<not> prefix pat (drop k (pre @ pat @ post))" by simp
  qed
  then have "string_replace pat rep (pre @ pat @ post) = pre @ rep @ post" by (rule Cons.IH)
  with first show ?case by simp
qed

lemma processData_empty:
  "processData parseFloat previousAnalyzedData [] = ([], [dataAnalyzed [], topGainersUpdated []])"
proof -
  have "analyzeTickerArray parseFloat [] = []" by (simp add: analyzeTickerArray_def)
  moreover have "detectNewSignals (Some previousAnalyzedData) [] = []"
    by (simp add: detectNewSignals_def getActiveSignals_def)
  moreover have "getTopGainers [] (Fin 5) = []"
    by (simp add: getTopGainers_def array_sort_def array_slice0_def)
  ultimately show ?thesis by (simp add: processData_def)
qed

lemma processData_newSignals:
  assumes "newSignalsDetected newSignals \<in>
        set (snd (processData parseFloat previousAnalyzedData tickerDataArray))"
  shows "newSignals \<noteq> [] \<and>
      newSignals =
        detectNewSignals (Some previousAnalyzedData)
          (analyzeTickerArray parseFloat tickerDataArray)"
  using assms by (simp add: processData_def Let_def split: if_splits)

lemma analyzeTicker_fields:
  "symbol (analyzeTicker parseFloat t) = raw_symbol t"
  "priceChangePercent (analyzeTicker parseFloat t) = parseFloat (raw_priceChangePercent t)"
  "signal (analyzeTicker parseFloat t) = detectSignal parseFloat t"
  by (simp_all add: analyzeTicker_def Let_def)

lemma analyzeTicker_volatility:
  "volatility (analyzeTicker parseFloat t) =
     calculateVolatilityScore (parseFloat (raw_priceChangePercent t))"
  by (simp add: analyzeTicker_def Let_def)

lemma sample_ticker_fields:
  "symbol (sample_ticker s p v) = s"
  "priceChangePercent (sample_ticker s p v) = sample_parseFloat p"
  by (simp_all add: sample_ticker_def analyzeTicker_fields sample_raw_def)

lemma sample_ticker_types:
  "type (signal (sample_ticker s ''5'' ''2000000'')) = WHALE_ACTIVITY"
  "type (signal (sample_ticker s ''-5'' ''1'')) = PANIC_SELL"
  "type (signal (sample_ticker s ''1'' ''1'')) = NEUTRAL"
  by (simp_all add: sample_ticker_def analyzeTicker_fields sample_raw_def detectSignal_def
      config_defs sample_parseFloat_simps js_gt_def)

lemma detectNewSignals_first:
  "detectNewSignals (Some []) currentData = getActiveSignals currentData"
  by (simp add: detectNewSignals_def)

section \<open>Facts about the signal comparison\<close>

lemma fold_push_filter:
  "fold (\<lambda>item acc. if P item then acc @ [item] else acc) xs acc = acc @ filter P xs"
  by (induction xs arbitrary: acc) simp_all

lemma fold_update_Some:
  fixes m0 :: "'k \<rightharpoonup> 'v"
  assumes "distinct (map key (filter nn xs))"
  shows "fold (\<lambda>item m. if nn item then m(key item \<mapsto> val item) else m) xs m0 k = Some v \<longleftrightarrow>
         (\<exists>p\<in>set xs. nn p \<and> key p = k \<and> val p = v) \<or>
         (m0 k = Some v \<and> \<not> (\<exists>p\<in>set xs. nn p \<and> key p = k))"
  using assms
proof (induction xs arbitrary: m0)
  case Nil
  then show ?case by simp
next
  case (Cons x xs)
  show ?case
  proof (cases "nn x")
    case True
    with Cons.prems have d: "distinct (map key (filter nn xs))"
      and "key x \<notin> key ` set (filter nn xs)"
      by simp_all
    then have n: "\<forall>p\<in>set xs. nn p \<longrightarrow> key p \<noteq> key x"
      by (auto simp add: image_iff)
    from True n show ?thesis
      by (simp add: Cons.IH [OF d]) blast
  next
    case False
    with Cons.prems have d: "distinct (map key (filter nn xs))"
      by simp
    from False show ?thesis
      by (simp add: Cons.IH [OF d])
  qed
qed


lemma detectNewSignals_filter:
  assumes "previous \<noteq> []"
  shows "detectNewSignals (Some previous) currentData =
     filter (\<lambda>item. type (signal item) \<noteq> NEUTRAL \<and>
                     previousSignals_of previous (symbol item) \<noteq> Some (type (signal item)))
       currentData"
proof -
  have f: "(\<lambda>(item :: enriched_ticker) (newSignals :: enriched_ticker list).
              if type (signal item) \<noteq> NEUTRAL then
                (let previousSignal = m (symbol item)
                 in if previousSignal = None \<or> previousSignal \<noteq> Some (type (signal item))
                    then newSignals @ [item] else newSignals)
              else newSignals) =
           (\<lambda>item acc. if type (signal item) \<noteq> NEUTRAL \<and>
                           m (symbol item) \<noteq> Some (type (signal item))
                        then acc @ [item] else acc)"
    for m :: "string \<rightharpoonup> signal_type"
  proof (intro ext)
    fix item :: enriched_ticker and newSignals :: "enriched_ticker list"
    have "(m (symbol item) = None \<or> m (symbol item) \<noteq> Some (type (signal item))) =
          (m (symbol item) \<noteq> Some (type (signal item)))"
      by (cases "m (symbol item)") simp_all
    then show "(if type (signal item) \<noteq> NEUTRAL then
                (let previousSignal = m (symbol item)
                 in if previousSignal = None \<or> previousSignal \<noteq> Some (type (signal item))
                    then newSignals @ [item] else newSignals)
              else newSignals) =
           (if type (signal item) \<noteq> NEUTRAL \<and>
                           m (symbol item) \<noteq> Some (type (signal item))
                        then newSignals @ [item] else newSignals)"
      unfolding Let_def by (simp only: if_split simp_thms) meson
  qed
  from assms have "length previous \<noteq> 0" by simp
  then show ?thesis
    unfolding detectNewSignals_def Let_def [of "previousSignals_of previous"] option.case f
      fold_push_filter
    by (simp only: if_False append_Nil)
qed

lemma previousSignals_of_Some:
  assumes "distinct (map symbol (getActiveSignals previous))"
  shows "previousSignals_of previous k = Some ty \<longleftrightarrow>
         (\<exists>p\<in>set previous. type (signal p) \<noteq> NEUTRAL \<and> symbol p = k \<and> type (signal p) = ty)"
proof -
  from assms have "distinct (map symbol (filter (\<lambda>item. type (signal item) \<noteq> NEUTRAL) previous))"
    unfolding getActiveSignals_def .
  from fold_update_Some [OF this, of "\<lambda>item. type (signal item)" Map.empty k ty]
  show ?thesis unfolding previousSignals_of_def by simp
qed


lemma changed_iff:
  assumes "distinct (map symbol (getActiveSignals previous))"
  shows "(type (signal c) \<noteq> NEUTRAL \<and>
           ((\<forall>p\<in>set previous. symbol p = symbol c \<longrightarrow> type (signal p) = NEUTRAL) \<or>
            (\<exists>p\<in>set previous. symbol p = symbol c \<and> type (signal p) \<noteq> NEUTRAL \<and>
                                type (signal p) \<noteq> type (signal c)))) =
         (type (signal c) \<noteq> NEUTRAL \<and>
           previousSignals_of previous (symbol c) \<noteq> Some (type (signal c)))"
proof -
  have u: "type (signal p) = type (signal p')"
    if "p \<in> set previous" "p' \<in> set previous" "type (signal p) \<noteq> NEUTRAL"
      "type (signal p') \<noteq> NEUTRAL" "symbol p = symbol p'" for p p'
  proof -
    from that have "p \<in> set (getActiveSignals previous)" "p' \<in> set (getActiveSignals previous)"
      by (simp_all add: getActiveSignals_def)
    with assms that(5) have "p = p'"
      by (meson distinct_map inj_onD)
    then show ?thesis by simp
  qed
  show ?thesis
  proof (cases "type (signal c) = NEUTRAL")
    case True
    then show ?thesis by simp
  next
    case False
    show ?thesis
    proof (cases "\<exists>p\<in>set previous. type (signal p) \<noteq> NEUTRAL \<and> symbol p = symbol c")
      case True
      then obtain q where q: "q \<in> set previous" "type (signal q) \<noteq> NEUTRAL" "symbol q = symbol c"
        by blast
      have l: "(\<exists>p\<in>set previous. type (signal p) \<noteq> NEUTRAL \<and> symbol p = symbol c \<and>
                  type (signal p) = type (signal c)) = (type (signal q) = type (signal c))"
        using q u by metis
      have r: "((\<forall>p\<in>set previous. symbol p = symbol c \<longrightarrow> type (signal p) = NEUTRAL) \<or>
            (\<exists>p\<in>set previous. symbol p = symbol c \<and> type (signal p) \<noteq> NEUTRAL \<and>
                                type (signal p) \<noteq> type (signal c))) =
            (type (signal q) \<noteq> type (signal c))"
        using q u by metis
      show ?thesis unfolding previousSignals_of_Some [OF assms] l r by simp
    next
      case False
      then have "\<forall>p\<in>set previous. symbol p = symbol c \<longrightarrow> type (signal p) = NEUTRAL"
        by blast
      moreover from False have "\<not> (\<exists>p\<in>set previous. type (signal p) \<noteq> NEUTRAL \<and>
                  symbol p = symbol c \<and> type (signal p) = type (signal c))"
        by blast
      ultimately show ?thesis unfolding previousSignals_of_Some [OF assms] by simp
    qed
  qed
qed

section \<open>Facts about sorting and slicing\<close>

lemma js_sub_positive: "js_gt (js_sub b a) (Fin 0) = js_lt a b"
  by (cases a; cases b) (simp_all add: js_gt_def)

lemma js_lt_irrefl: "\<not> js_lt a a"
  by (cases a) simp_all

lemma js_ge_trans: "js_ge a b \<Longrightarrow> js_ge b c \<Longrightarrow> js_ge a c"
  by (cases a; cases b; cases c) (simp_all add: js_ge_def)

lemma js_lt_imp_ge: "js_lt a b \<Longrightarrow> js_ge b a"
  by (cases a; cases b) (simp_all add: js_ge_def)

lemma sort_insert_by_key:
  "sort_insert (\<lambda>a b. js_sub (f b) (f a)) x (y # ys) =
     (if js_lt (f x) (f y) then y # sort_insert (\<lambda>a b. js_sub (f b) (f a)) x ys
      else x # y # ys)"
  by (simp add: js_sub_positive)

lemma mset_sort_insert: "mset (sort_insert cmp x ys) = add_mset x (mset ys)"
  by (induction ys) simp_all

lemma set_sort_insert: "set (sort_insert cmp x ys) = insert x (set ys)"
  using mset_sort_insert [of cmp x ys, THEN arg_cong, of set_mset] by simp

lemma sorted_sort_insert:
  assumes "sorted_wrt (\<lambda>a b. js_ge (f a) (f b)) ys"
    and "f x \<noteq> NaN" and "\<forall>y\<in>set ys. f y \<noteq> NaN"
  shows "sorted_wrt (\<lambda>a b. js_ge (f a) (f b)) (sort_insert (\<lambda>a b. js_sub (f b) (f a)) x ys)"
  using assms
proof (induction ys)
  case Nil
  then show ?case by simp
next
  case (Cons y ys)
  show ?case
  proof (cases "js_lt (f x) (f y)")
    case True
    then have "js_ge (f y) (f x)" by (rule js_lt_imp_ge)
    moreover from Cons have "sorted_wrt (\<lambda>a b. js_ge (f a) (f b))
        (sort_insert (\<lambda>a b. js_sub (f b) (f a)) x ys)" by simp
    moreover from Cons.prems have "\<forall>z\<in>set ys. js_ge (f y) (f z)" by simp
    ultimately show ?thesis using True
      by (simp only: sort_insert_by_key if_True sorted_wrt.simps set_sort_insert) simp
  next
    case False
    with Cons.prems have xy: "js_ge (f x) (f y)" by (simp add: js_ge_def)
    from Cons.prems have "\<forall>z\<in>set ys. js_ge (f y) (f z)" by simp
    with xy have "\<forall>z\<in>set ys. js_ge (f x) (f z)" by (blast intro: js_ge_trans)
    with xy False Cons.prems(1) show ?thesis
      by (simp only: sort_insert_by_key if_False sorted_wrt.simps) simp
  qed
qed

lemma filter_sort_insert:
  "filter (\<lambda>z. f z = k) (sort_insert (\<lambda>a b. js_sub (f b) (f a)) x ys) =
   filter (\<lambda>z. f z = k) (x # ys)"
proof (induction ys)
  case Nil
  then show ?case by simp
next
  case (Cons y ys)
  show ?case
  proof (cases "js_lt (f x) (f y)")
    case True
    then have "f x \<noteq> f y" using js_lt_irrefl by metis
    with True Cons.IH show ?thesis
      by (simp only: sort_insert_by_key if_True) auto
  next
    case False
    then show ?thesis by (simp only: sort_insert_by_key if_False)
  qed
qed

lemma array_sort_Cons: "array_sort cmp (x # xs) = sort_insert cmp x (array_sort cmp xs)"
  by (simp add: array_sort_def)

lemma mset_array_sort: "mset (array_sort cmp xs) = mset xs"
  by (induction xs) (simp_all add: array_sort_Cons mset_sort_insert, simp add: array_sort_def)

lemma set_array_sort: "set (array_sort cmp xs) = set xs"
  using mset_array_sort [of cmp xs, THEN arg_cong, of set_mset] by simp

lemma sorted_array_sort:
  "\<forall>x\<in>set xs. f x \<noteq> NaN \<Longrightarrow>
   sorted_wrt (\<lambda>a b. js_ge (f a) (f b)) (array_sort (\<lambda>a b. js_sub (f b) (f a)) xs)"
proof (induction xs)
  case Nil
  then show ?case by (simp add: array_sort_def)
next
  case (Cons x xs)
  then show ?case
    unfolding array_sort_Cons
    by (intro sorted_sort_insert) (simp_all add: set_array_sort)
qed

lemma stable_array_sort:
  "filter (\<lambda>z. f z = k) (array_sort (\<lambda>a b. js_sub (f b) (f a)) xs) = filter (\<lambda>z. f z = k) xs"
proof (induction xs)
  case Nil
  then show ?case by (simp add: array_sort_def)
next
  case (Cons x xs)
  have "filter (\<lambda>z. f z = k) (array_sort (\<lambda>a b. js_sub (f b) (f a)) (x # xs)) =
        filter (\<lambda>z. f z = k) (x # array_sort (\<lambda>a b. js_sub (f b) (f a)) xs)"
    unfolding array_sort_Cons by (rule filter_sort_insert)
  with Cons.IH show ?case by simp
qed

lemma array_slice0_nonneg:
  "0 \<le> r \<Longrightarrow> array_slice0 xs (Fin r) = take (nat \<lfloor>r\<rfloor>) xs"
  "array_slice0 xs PosInf = xs"
  by (simp_all add: array_slice0_def Let_def min_def)


lemma array_slice0_negative:
  "r \<le> - 1 \<Longrightarrow> array_slice0 xs (Fin r) = take (length xs - nat (- \<lceil>r\<rceil>)) xs"
  "- 1 < r \<Longrightarrow> r < 0 \<Longrightarrow> array_slice0 xs (Fin r) = []"
  "array_slice0 xs NegInf = []"
proof -
  show "array_slice0 xs NegInf = []" by (simp add: array_slice0_def)
next
  assume "r \<le> - 1"
  then have c: "\<lceil>r\<rceil> \<le> - 1" by (simp add: ceiling_le_iff)
  then have "nat (max (int (length xs) + \<lceil>r\<rceil>) 0) = length xs - nat (- \<lceil>r\<rceil>)" by linarith
  with c \<open>r \<le> - 1\<close> show "array_slice0 xs (Fin r) = take (length xs - nat (- \<lceil>r\<rceil>)) xs"
    by (simp add: array_slice0_def Let_def)
next
  assume "- 1 < r" "r < 0"
  then have "\<lceil>r\<rceil> = 0" by (simp add: ceiling_eq_iff)
  with \<open>r < 0\<close> show "array_slice0 xs (Fin r) = []"
    by (simp add: array_slice0_def Let_def)
qed

lemma sample_ranking:
  "getTopGainers
     [sample_ticker ''AUSDT'' ''1'' ''1'', sample_ticker ''BUSDT'' ''5'' ''1'',
      sample_ticker ''CUSDT'' ''-1'' ''1'', sample_ticker ''DUSDT'' ''5'' ''1'',
      sample_ticker ''EUSDT'' ''2'' ''1'', sample_ticker ''NUSDT'' ''abc'' ''1''] limit =
   array_slice0
     [sample_ticker ''BUSDT'' ''5'' ''1'', sample_ticker ''DUSDT'' ''5'' ''1'',
      sample_ticker ''EUSDT'' ''2'' ''1'', sample_ticker ''AUSDT'' ''1'' ''1''] limit"
  by (simp add: getTopGainers_def array_sort_def sample_ticker_fields sample_parseFloat_simps
      js_gt_def js_sub_positive)


lemma processData_topGainers:
  "topGainersUpdated topGainers \<in>
     set (snd (processData parseFloat previousAnalyzedData tickerDataArray)) \<Longrightarrow>
   topGainers = getTopGainers (analyzeTickerArray parseFloat tickerDataArray) (Fin 5)"
  by (simp add: processData_def Let_def split: if_splits)

lemma processData_topGainers_emitted:
  "topGainersUpdated (getTopGainers (analyzeTickerArray parseFloat tickerDataArray) (Fin 5)) \<in>
     set (snd (processData parseFloat previousAnalyzedData tickerDataArray))"
  by (simp add: processData_def Let_def)

section \<open>Claims about the volatility score\<close>

text \<open>
  Claim C10. The volatility score is not monotone in the absolute price change across
  the band boundaries: an absolute change of 4.99 (medium band) scores 70, the larger
  absolute change 5.0 (high band) scores 50, so there are numbers \<open>p\<close>, \<open>q\<close> with
  \<open>|p| < |q|\<close> and a strictly greater score at \<open>p\<close>.
\<close>

theorem C10_score_not_monotone_across_bands:
  "score (calculateVolatilityScore (Fin (499 / 100))) = Fin 70 \<and>
   score (calculateVolatilityScore (Fin 5)) = Fin 50 \<and>
   (\<exists>p q. \<bar>p\<bar> < \<bar>q\<bar> \<and>
      js_gt (score (calculateVolatilityScore (Fin p))) (score (calculateVolatilityScore (Fin q))))"
proof -
  have a: "score (calculateVolatilityScore (Fin (499 / 100))) = Fin 70"
    using score_medium(1) [of "499 / 100"]
    by (simp add: scaled_change_values del: js_div.simps js_mul.simps)
  have b: "score (calculateVolatilityScore (Fin 5)) = Fin 50"
    using score_high(1) [of 5]
    by (simp add: scaled_change_values js_min_def del: js_div.simps js_mul.simps)
  have "\<bar>499 / 100 :: real\<bar> < \<bar>5\<bar>" by simp
  moreover have "js_gt (score (calculateVolatilityScore (Fin (499 / 100))))
                       (score (calculateVolatilityScore (Fin 5)))"
    by (simp add: a b js_gt_def)
  ultimately show ?thesis using a b by blast
qed

text \<open>
  Claim C1 at the input not-a-number. The property is that the score lies in \<open>[0,100]\<close>
  for every input and is 0, with level \<open>low\<close>, for not-a-number. The function returns
  level \<open>low\<close> and the score not-a-number there: \<open>Math.min(100, Math.max(0, score))\<close>
  passes not-a-number on, so the score is neither 0 nor within the two bounds (both
  comparisons are false). The same score reaches an analyzed ticker whose price change
  percentage is malformed text.
\<close>

theorem C1_score_at_NaN:
  "calculateVolatilityScore NaN = \<lparr>score = NaN, level = ''low''\<rparr> \<and>
   score (calculateVolatilityScore NaN) \<noteq> Fin 0 \<and>
   \<not> (js_ge (score (calculateVolatilityScore NaN)) (Fin 0) \<and>
      js_ge (Fin 100) (score (calculateVolatilityScore NaN))) \<and>
   score (volatility (analyzeTicker sample_parseFloat (sample_raw ''BTCUSDT'' ''abc'' ''1''))) = NaN"
  by (simp add: score_NaN js_ge_def analyzeTicker_volatility sample_raw_def
      sample_parseFloat_simps)

text \<open>
  Claim C6. For every numeric price change percentage \<open>p\<close> (not not-a-number) with
  absolute change \<open>|p|\<close>: from 5.0 on the level is \<open>high\<close> and the score equals
  \<open>round(min(100, |p| / 10 * 100))\<close>, which is 100 from 50.0 on; from 2.0 up to but
  excluding 5.0 the level is \<open>medium\<close> and the score equals \<open>round(|p| / 5.0 * 70)\<close>; below
  2.0 the level is \<open>low\<close>, the score equals \<open>round(|p| / 2.0 * 30)\<close>, lies in \<open>[0,30]\<close>, and
  does not decrease when the absolute change grows within the band. The quotient and
  the product are the rounded ones of double arithmetic. The formulas are written as
  the specification has them (rounding outside the minimum); the score is the one
  returned, after the final clamp.
\<close>

theorem C6_volatility_bands:
  assumes "p \<noteq> NaN"
  shows "(js_ge (js_abs p) (Fin 5) \<longrightarrow>
            level (calculateVolatilityScore p) = ''high'' \<and>
            score (calculateVolatilityScore p) =
              js_round (js_min (Fin 100) (js_mul (js_div (js_abs p) (Fin 10)) (Fin 100)))) \<and>
         (js_ge (js_abs p) (Fin 50) \<longrightarrow> score (calculateVolatilityScore p) = Fin 100) \<and>
         (js_ge (js_abs p) (Fin 2) \<and> js_lt (js_abs p) (Fin 5) \<longrightarrow>
            level (calculateVolatilityScore p) = ''medium'' \<and>
            score (calculateVolatilityScore p) =
              js_round (js_mul (js_div (js_abs p) (Fin 5)) (Fin 70))) \<and>
         (js_lt (js_abs p) (Fin 2) \<longrightarrow>
            level (calculateVolatilityScore p) = ''low'' \<and>
            score (calculateVolatilityScore p) =
              js_round (js_mul (js_div (js_abs p) (Fin 2)) (Fin 30)) \<and>
            js_ge (score (calculateVolatilityScore p)) (Fin 0) \<and>
            js_ge (Fin 30) (score (calculateVolatilityScore p))) \<and>
         (q \<noteq> NaN \<and> js_lt (js_abs q) (Fin 2) \<and> js_ge (js_abs q) (js_abs p) \<longrightarrow>
            js_ge (score (calculateVolatilityScore q)) (score (calculateVolatilityScore p)))"
    (is "?high \<and> ?sat \<and> ?medium \<and> ?low \<and> ?mono")
proof (cases p)
  case NaN
  with assms show ?thesis by simp
next
  case NegInf
  then show ?thesis
    by (cases q)
      (simp_all add: score_infinite spec_high_PosInf js_ge_def
        del: js_round.simps js_div.simps js_mul.simps)
next
  case PosInf
  then show ?thesis
    by (cases q)
      (simp_all add: score_infinite spec_high_PosInf js_ge_def
        del: js_round.simps js_div.simps js_mul.simps)
next
  case (Fin a)
  have high: ?high
  proof
    assume "js_ge (js_abs p) (Fin 5)"
    with Fin have "5 \<le> \<bar>a\<bar>" by (simp add: js_ge_def)
    then show "level (calculateVolatilityScore p) = ''high'' \<and>
            score (calculateVolatilityScore p) =
              js_round (js_min (Fin 100) (js_mul (js_div (js_abs p) (Fin 10)) (Fin 100)))"
      unfolding Fin js_abs.simps by (simp only: score_high(1) volatility_result.simps simp_thms)
  qed
  have sat: ?sat
  proof
    assume "js_ge (js_abs p) (Fin 50)"
    with Fin have "50 \<le> \<bar>a\<bar>" by (simp add: js_ge_def)
    then show "score (calculateVolatilityScore p) = Fin 100"
      unfolding Fin by (rule score_saturated)
  qed
  have medium: ?medium
  proof
    assume "js_ge (js_abs p) (Fin 2) \<and> js_lt (js_abs p) (Fin 5)"
    with Fin have a: "2 \<le> \<bar>a\<bar>" "\<bar>a\<bar> < 5" by (simp_all add: js_ge_def)
    show "level (calculateVolatilityScore p) = ''medium'' \<and>
            score (calculateVolatilityScore p) =
              js_round (js_mul (js_div (js_abs p) (Fin 5)) (Fin 70))"
      unfolding Fin js_abs.simps
      by (simp only: score_medium(1) [OF a] volatility_result.simps simp_thms)
  qed
  have low: ?low
  proof
    assume "js_lt (js_abs p) (Fin 2)"
    with Fin have a: "\<bar>a\<bar> < 2" by simp
    let ?n = "\<lfloor>round_double (round_double (\<bar>a\<bar> / 2) * 30) + 1 / 2\<rfloor>"
    have "(0::real) \<le> of_int ?n" "(of_int ?n :: real) \<le> 30"
      using score_low(3,4) [OF a] by linarith+
    then have "js_ge (Fin (of_int ?n)) (Fin 0) \<and> js_ge (Fin 30) (Fin (of_int ?n))"
      by (simp only: js_ge_def js_lt.simps jsnum.simps not_less simp_thms)
    then have "js_ge (js_round (js_mul (js_div (Fin \<bar>a\<bar>) (Fin 2)) (Fin 30))) (Fin 0) \<and>
               js_ge (Fin 30) (js_round (js_mul (js_div (Fin \<bar>a\<bar>) (Fin 2)) (Fin 30)))"
      by (simp only: score_low(2) [OF a] js_round_Fin)
    then show "level (calculateVolatilityScore p) = ''low'' \<and>
            score (calculateVolatilityScore p) =
              js_round (js_mul (js_div (js_abs p) (Fin 2)) (Fin 30)) \<and>
            js_ge (score (calculateVolatilityScore p)) (Fin 0) \<and>
            js_ge (Fin 30) (score (calculateVolatilityScore p))"
      unfolding Fin js_abs.simps
      by (simp only: score_low(1) [OF a] volatility_result.simps simp_thms)
  qed
  have mono: ?mono
  proof
    assume h: "q \<noteq> NaN \<and> js_lt (js_abs q) (Fin 2) \<and> js_ge (js_abs q) (js_abs p)"
    then obtain b where q: "q = Fin b" by (cases q) simp_all
    from h have "\<bar>b\<bar> < 2" "\<bar>a\<bar> \<le> \<bar>b\<bar>" unfolding q Fin by (simp_all add: js_ge_def)
    then show "js_ge (score (calculateVolatilityScore q)) (score (calculateVolatilityScore p))"
      unfolding q Fin by (intro score_low_mono)
  qed
  from high sat medium low mono show ?thesis by (intro conjI)
qed

text \<open>
  Claim C6 at the inputs 7, 5.75 and 60 (high band), -3 (medium band), 1, 1.5 and the
  double nearest to 0.3 (low band). At 5.75 the rounded product is just below 57.5 and
  the score is 57; at the double nearest to 0.3 it is exactly 4.5 and the score is 5.
\<close>

theorem C6_volatility_bands_witness:
  "Fin 7 \<noteq> NaN \<and> js_ge (js_abs (Fin 7)) (Fin 5) \<and>
   level (calculateVolatilityScore (Fin 7)) = ''high'' \<and>
   score (calculateVolatilityScore (Fin 7)) = Fin 70 \<and>
   js_ge (js_abs (Fin (23 / 4))) (Fin 5) \<and>
   score (calculateVolatilityScore (Fin (23 / 4))) = Fin 57 \<and>
   js_ge (js_abs (Fin 60)) (Fin 50) \<and> score (calculateVolatilityScore (Fin 60)) = Fin 100 \<and>
   js_ge (js_abs (Fin (- 3))) (Fin 2) \<and> js_lt (js_abs (Fin (- 3))) (Fin 5) \<and>
   level (calculateVolatilityScore (Fin (- 3))) = ''medium'' \<and>
   score (calculateVolatilityScore (Fin (- 3))) = Fin 42 \<and>
   js_lt (js_abs (Fin 1)) (Fin 2) \<and>
   level (calculateVolatilityScore (Fin 1)) = ''low'' \<and>
   score (calculateVolatilityScore (Fin 1)) = Fin 15 \<and>
   js_lt (js_abs (Fin (5404319552844595 / 18014398509481984))) (Fin 2) \<and>
   score (calculateVolatilityScore (Fin (5404319552844595 / 18014398509481984))) = Fin 5 \<and>
   Fin (3 / 2) \<noteq> NaN \<and> js_lt (js_abs (Fin (3 / 2))) (Fin 2) \<and>
   score (calculateVolatilityScore (Fin (3 / 2))) = Fin 23 \<and>
   js_ge (js_abs (Fin (3 / 2))) (js_abs (Fin 1)) \<and>
   js_ge (score (calculateVolatilityScore (Fin (3 / 2)))) (score (calculateVolatilityScore (Fin 1)))"
proof -
  have v7: "level (calculateVolatilityScore (Fin 7)) = ''high'' \<and>
            score (calculateVolatilityScore (Fin 7)) = Fin 70"
    using C6_volatility_bands [of "Fin 7" NaN]
    by (simp add: js_ge_def js_min_def scaled_change_values del: js_div.simps js_mul.simps)
  have v575: "score (calculateVolatilityScore (Fin (23 / 4))) = Fin 57"
    using C6_volatility_bands [of "Fin (23 / 4)" NaN]
    by (simp add: js_ge_def js_min_def scaled_change_values del: js_div.simps js_mul.simps)
  have v60: "score (calculateVolatilityScore (Fin 60)) = Fin 100"
    using C6_volatility_bands [of "Fin 60" NaN, THEN conjunct2, THEN conjunct1]
    by (simp add: js_ge_def)
  have v3: "level (calculateVolatilityScore (Fin (- 3))) = ''medium'' \<and>
            score (calculateVolatilityScore (Fin (- 3))) = Fin 42"
    using C6_volatility_bands [of "Fin (- 3)" NaN]
    by (simp add: js_ge_def scaled_change_values del: js_div.simps js_mul.simps)
  have v1: "level (calculateVolatilityScore (Fin 1)) = ''low'' \<and>
            score (calculateVolatilityScore (Fin 1)) = Fin 15"
    using C6_volatility_bands [of "Fin 1" NaN]
    by (simp add: js_ge_def scaled_change_values del: js_div.simps js_mul.simps)
  have v03: "score (calculateVolatilityScore (Fin (5404319552844595 / 18014398509481984))) = Fin 5"
    using C6_volatility_bands [of "Fin (5404319552844595 / 18014398509481984)" NaN]
    by (simp add: js_ge_def scaled_change_values del: js_div.simps js_mul.simps)
  have v15: "score (calculateVolatilityScore (Fin (3 / 2))) = Fin 23"
    using C6_volatility_bands [of "Fin (3 / 2)" NaN]
    by (simp add: js_ge_def scaled_change_values del: js_div.simps js_mul.simps)
  have mono: "js_ge (score (calculateVolatilityScore (Fin (3 / 2))))
                    (score (calculateVolatilityScore (Fin 1)))"
    using C6_volatility_bands [of "Fin 1" "Fin (3 / 2)", THEN conjunct2, THEN conjunct2,
        THEN conjunct2, THEN conjunct2]
    by (simp add: js_ge_def)
  from v7 v575 v60 v3 v1 v03 v15 mono show ?thesis by (simp add: js_ge_def)
qed

section \<open>Claims about the signal classification\<close>

text \<open>
  Claim C5. With \<open>pcp\<close> and \<open>vol\<close> the parsed price change percentage and quote volume
  of a ticker, \<open>detectSignal\<close> returns \<open>WHALE_ACTIVITY\<close> exactly when \<open>pcp > 3.0\<close> and
  \<open>vol > 1000000\<close>; otherwise \<open>PANIC_SELL\<close> exactly when \<open>pcp < -3.0\<close>; otherwise
  \<open>NEUTRAL\<close>. The priority is \<open>high\<close> for the first two and \<open>low\<close> for \<open>NEUTRAL\<close>.
  Equality with a threshold does not qualify: at \<open>pcp = 3.0\<close> or \<open>vol = 1000000\<close> the
  result is not \<open>WHALE_ACTIVITY\<close>, at \<open>pcp = -3.0\<close> it is \<open>NEUTRAL\<close>. A not-a-number
  input satisfies no threshold it is compared with: a not-a-number percentage gives
  \<open>NEUTRAL\<close>, a not-a-number volume never gives \<open>WHALE_ACTIVITY\<close>.
\<close>

theorem C5_detectSignal_thresholds:
  "(let pcp = parseFloat (raw_priceChangePercent t);
        vol = parseFloat (raw_quoteVolume t);
        r = detectSignal parseFloat t
    in (type r = WHALE_ACTIVITY \<longleftrightarrow> js_gt pcp (Fin 3) \<and> js_gt vol (Fin 1000000)) \<and>
       (type r = PANIC_SELL \<longleftrightarrow>
          \<not> (js_gt pcp (Fin 3) \<and> js_gt vol (Fin 1000000)) \<and> js_lt pcp (Fin (- 3))) \<and>
       (type r = NEUTRAL \<longleftrightarrow>
          \<not> (js_gt pcp (Fin 3) \<and> js_gt vol (Fin 1000000)) \<and> \<not> js_lt pcp (Fin (- 3))) \<and>
       priority r = (if type r = NEUTRAL then ''low'' else ''high'') \<and>
       (pcp = Fin 3 \<or> vol = Fin 1000000 \<longrightarrow> type r \<noteq> WHALE_ACTIVITY) \<and>
       (pcp = Fin (- 3) \<longrightarrow> type r = NEUTRAL) \<and>
       (pcp = NaN \<longrightarrow> type r = NEUTRAL) \<and>
       (vol = NaN \<longrightarrow> type r \<noteq> WHALE_ACTIVITY))"
  by (simp add: detectSignal_def config_defs Let_def js_gt_def)

text \<open>
  Claim C5 at the boundary tickers: (3.0001, 1000001) is whale activity; (3.0, 2000000),
  (3.0001, 1000000) are not; -3.0 is neutral; -3.0001 is a panic sell; a malformed
  percentage is neutral; a malformed volume is not whale activity.
\<close>

theorem C5_detectSignal_thresholds_witness:
  "type (detectSignal sample_parseFloat (sample_raw ''BTCUSDT'' ''3.0001'' ''1000001'')) = WHALE_ACTIVITY \<and>
   type (detectSignal sample_parseFloat (sample_raw ''BTCUSDT'' ''3.0'' ''2000000'')) = NEUTRAL \<and>
   type (detectSignal sample_parseFloat (sample_raw ''BTCUSDT'' ''3.0001'' ''1000000'')) \<noteq> WHALE_ACTIVITY \<and>
   type (detectSignal sample_parseFloat (sample_raw ''BTCUSDT'' ''-3.0'' ''2000000'')) = NEUTRAL \<and>
   type (detectSignal sample_parseFloat (sample_raw ''BTCUSDT'' ''-3.0001'' ''abc'')) = PANIC_SELL \<and>
   type (detectSignal sample_parseFloat (sample_raw ''BTCUSDT'' ''abc'' ''2000000'')) = NEUTRAL \<and>
   type (detectSignal sample_parseFloat (sample_raw ''BTCUSDT'' ''5'' ''abc'')) \<noteq> WHALE_ACTIVITY"
  using C5_detectSignal_thresholds [of sample_parseFloat "sample_raw ''BTCUSDT'' ''3.0001'' ''1000001''"]
    C5_detectSignal_thresholds [of sample_parseFloat "sample_raw ''BTCUSDT'' ''3.0'' ''2000000''"]
    C5_detectSignal_thresholds [of sample_parseFloat "sample_raw ''BTCUSDT'' ''3.0001'' ''1000000''"]
    C5_detectSignal_thresholds [of sample_parseFloat "sample_raw ''BTCUSDT'' ''-3.0'' ''2000000''"]
    C5_detectSignal_thresholds [of sample_parseFloat "sample_raw ''BTCUSDT'' ''-3.0001'' ''abc''"]
    C5_detectSignal_thresholds [of sample_parseFloat "sample_raw ''BTCUSDT'' ''abc'' ''2000000''"]
    C5_detectSignal_thresholds [of sample_parseFloat "sample_raw ''BTCUSDT'' ''5'' ''abc''"]
  by (simp add: Let_def sample_raw_def sample_parseFloat_simps js_gt_def)

section \<open>Claims about the ticker analysis\<close>

text \<open>
  Claim C2, as stated, fails. The symbol \<open>USDTTRY\<close> does not end with \<open>USDT\<close>, yet its
  base asset is \<open>TRY\<close>, not the symbol unchanged. The symbol \<open>USDTXUSDT\<close> ends with
  \<open>USDT\<close>; removing that suffix would give \<open>USDTX\<close>, and the base asset is \<open>XUSDT\<close>.
\<close>

theorem C2_baseAsset_counterexample:
  "\<not> suffix ''USDT'' ''USDTTRY'' \<and>
   baseAsset (analyzeTicker sample_parseFloat (sample_raw ''USDTTRY'' ''1'' ''1'')) = ''TRY'' \<and>
   baseAsset (analyzeTicker sample_parseFloat (sample_raw ''USDTTRY'' ''1'' ''1'')) \<noteq> ''USDTTRY'' \<and>
   ''USDTXUSDT'' = ''USDTX'' @ ''USDT'' \<and>
   baseAsset (analyzeTicker sample_parseFloat (sample_raw ''USDTXUSDT'' ''1'' ''1'')) = ''XUSDT'' \<and>
   baseAsset (analyzeTicker sample_parseFloat (sample_raw ''USDTXUSDT'' ''1'' ''1'')) \<noteq> ''USDTX''"
  by (simp add: analyzeTicker_def sample_raw_def suffix_to_prefix Let_def)

text \<open>
  Claim C2, amended. \<open>analyzeTicker\<close> derives the base asset by removing the leftmost
  occurrence of \<open>USDT\<close> from the symbol, wherever it is: for every symbol that does not
  contain \<open>USDT\<close> the base asset equals the symbol unchanged; for every symbol of the
  form \<open>pre @ USDT @ post\<close> in which no occurrence of \<open>USDT\<close> starts inside \<open>pre\<close> the
  base asset is \<open>pre @ post\<close> (with \<open>post\<close> empty: the suffix is removed when it is the
  leftmost occurrence).
\<close>

theorem C2_baseAsset_leftmost_occurrence:
  "(\<not> sublist ''USDT'' (raw_symbol t) \<longrightarrow>
      baseAsset (analyzeTicker parseFloat t) = raw_symbol t) \<and>
   (\<forall>pre post.
      raw_symbol t = pre @ ''USDT'' @ post \<and>
      (\<forall>k<length pre. \<not> prefix ''USDT'' (drop k (raw_symbol t))) \<longrightarrow>
      baseAsset (analyzeTicker parseFloat t) = pre @ post)"
proof (intro conjI allI impI)
  have b: "baseAsset (analyzeTicker parseFloat t) = string_replace ''USDT'' [] (raw_symbol t)"
    by (simp add: analyzeTicker_def Let_def)
  {
    assume "\<not> sublist ''USDT'' (raw_symbol t)"
    then have "string_replace ''USDT'' [] (raw_symbol t) = raw_symbol t"
      by (rule string_replace_absent)
    then show "baseAsset (analyzeTicker parseFloat t) = raw_symbol t"
      by (simp only: b)
  next
    fix pre post
    assume h: "raw_symbol t = pre @ ''USDT'' @ post \<and>
        (\<forall>k<length pre. \<not> prefix ''USDT'' (drop k (raw_symbol t)))"
    then have s: "raw_symbol t = pre @ ''USDT'' @ post" by (rule conjunct1)
    from h have "\<forall>k<length pre. \<not> prefix ''USDT'' (drop k (raw_symbol t))"
      by (rule conjunct2)
    then have "\<forall>k<length pre. \<not> prefix ''USDT'' (drop k (pre @ ''USDT'' @ post))"
      unfolding s .
    then have "string_replace ''USDT'' [] (pre @ ''USDT'' @ post) = pre @ [] @ post"
      by (rule string_replace_leftmost)
    then show "baseAsset (analyzeTicker parseFloat t) = pre @ post"
      unfolding b s by (simp only: append_Nil)
  }
qed

text \<open>
  The amended claim C2 at \<open>BTCEUR\<close>, which does not contain \<open>USDT\<close>, and at
  \<open>BTCUSDT\<close>, whose only occurrence of \<open>USDT\<close> is its suffix.
\<close>

theorem C2_baseAsset_leftmost_occurrence_witness:
  "\<not> sublist ''USDT'' ''BTCEUR'' \<and>
   baseAsset (analyzeTicker sample_parseFloat (sample_raw ''BTCEUR'' ''1'' ''1'')) = ''BTCEUR'' \<and>
   ''BTCUSDT'' = ''BTC'' @ ''USDT'' @ [] \<and>
   \<not> prefix ''USDT'' (drop 0 ''BTCUSDT'') \<and>
   \<not> prefix ''USDT'' (drop 1 ''BTCUSDT'') \<and>
   \<not> prefix ''USDT'' (drop 2 ''BTCUSDT'') \<and>
   baseAsset (analyzeTicker sample_parseFloat (sample_raw ''BTCUSDT'' ''1'' ''1'')) = ''BTC''"
proof -
  have a: "\<not> sublist ''USDT'' ''BTCEUR''" by (simp add: sublist_code)
  have k: "\<forall>k<length ''BTC''. \<not> prefix ''USDT'' (drop k ''BTCUSDT'')"
    by (simp add: All_less_Suc)
  have s: "raw_symbol (sample_raw ''BTCEUR'' ''1'' ''1'') = ''BTCEUR''"
    "raw_symbol (sample_raw ''BTCUSDT'' ''1'' ''1'') = ''BTCUSDT''"
    by (simp_all add: sample_raw_def)
  from a k
    C2_baseAsset_leftmost_occurrence [of "sample_raw ''BTCEUR'' ''1'' ''1''" sample_parseFloat]
    C2_baseAsset_leftmost_occurrence [of "sample_raw ''BTCUSDT'' ''1'' ''1''" sample_parseFloat,
      THEN conjunct2, rule_format, of "''BTC''" "[]"]
  show ?thesis unfolding s by simp
qed

section \<open>Claims about the pipeline\<close>

text \<open>
  Claim C8. For every pipeline state, \<open>processData\<close> on the empty snapshot returns
  normally with the empty analyzed set and the empty top-gainers list, and triggers no
  new-signals event. On any snapshot, a new-signals event carries the sequence found by
  \<open>detectNewSignals\<close>, and it is triggered only when that sequence is non-empty.
\<close>

theorem C8_empty_snapshot:
  "processData parseFloat previousAnalyzedData [] =
     ([], [dataAnalyzed [], topGainersUpdated []]) \<and>
   (\<forall>tickerDataArray newSignals.
      newSignalsDetected newSignals \<in>
        set (snd (processData parseFloat previousAnalyzedData tickerDataArray)) \<longrightarrow>
      newSignals \<noteq> [] \<and>
      newSignals =
        detectNewSignals (Some previousAnalyzedData)
          (analyzeTickerArray parseFloat tickerDataArray))"
proof (intro conjI allI impI)
  show "processData parseFloat previousAnalyzedData [] =
          ([], [dataAnalyzed [], topGainersUpdated []])"
    by (rule processData_empty)
next
  fix tickerDataArray newSignals
  assume "newSignalsDetected newSignals \<in>
        set (snd (processData parseFloat previousAnalyzedData tickerDataArray))"
  then have r: "newSignals \<noteq> [] \<and>
      newSignals =
        detectNewSignals (Some previousAnalyzedData)
          (analyzeTickerArray parseFloat tickerDataArray)"
    by (rule processData_newSignals)
  from r show "newSignals \<noteq> []" by (rule conjunct1)
  from r show "newSignals =
        detectNewSignals (Some previousAnalyzedData)
          (analyzeTickerArray parseFloat tickerDataArray)" by (rule conjunct2)
qed

text \<open>
  Claim C8 on a state holding a whale-activity ticker and the empty snapshot, and on the
  empty state and a snapshot with that ticker, where the new-signals event is triggered.
\<close>

theorem C8_empty_snapshot_witness:
  "processData sample_parseFloat [sample_ticker ''BTCUSDT'' ''5'' ''2000000''] [] =
     ([], [dataAnalyzed [], topGainersUpdated []]) \<and>
   newSignalsDetected [sample_ticker ''BTCUSDT'' ''5'' ''2000000''] \<in>
     set (snd (processData sample_parseFloat [] [sample_raw ''BTCUSDT'' ''5'' ''2000000''])) \<and>
   [sample_ticker ''BTCUSDT'' ''5'' ''2000000''] \<noteq> [] \<and>
   [sample_ticker ''BTCUSDT'' ''5'' ''2000000''] =
     detectNewSignals (Some [])
       (analyzeTickerArray sample_parseFloat [sample_raw ''BTCUSDT'' ''5'' ''2000000''])"
proof -
  have a: "analyzeTickerArray sample_parseFloat [sample_raw ''BTCUSDT'' ''5'' ''2000000''] =
             [sample_ticker ''BTCUSDT'' ''5'' ''2000000'']"
    by (simp add: analyzeTickerArray_def sample_ticker_def)
  have m: "newSignalsDetected [sample_ticker ''BTCUSDT'' ''5'' ''2000000''] \<in>
     set (snd (processData sample_parseFloat [] [sample_raw ''BTCUSDT'' ''5'' ''2000000'']))"
    by (simp add: processData_def Let_def a detectNewSignals_first getActiveSignals_def
        sample_ticker_types)
  note e = C8_empty_snapshot [of sample_parseFloat "[sample_ticker ''BTCUSDT'' ''5'' ''2000000'']",
      THEN conjunct1]
  note n = C8_empty_snapshot [of sample_parseFloat "[]", THEN conjunct2, rule_format, OF m]
  from e m n [THEN conjunct1] n [THEN conjunct2] show ?thesis by (intro conjI)
qed

text \<open>
  Claim C9. Processing the empty snapshot resets the baseline of the comparison: the
  retained previous set is empty afterwards, so the call that follows reports as new
  exactly the entries of its snapshot whose signal type is not \<open>NEUTRAL\<close>, in snapshot
  order (and triggers the new-signals event exactly when there is one).
\<close>

theorem C9_empty_snapshot_resets_baseline:
  "fst (processData parseFloat previousAnalyzedData []) = [] \<and>
   (let analyzedData = analyzeTickerArray parseFloat tickerDataArray;
        nonNeutral = filter (\<lambda>c. type (signal c) \<noteq> NEUTRAL) analyzedData
    in snd (processData parseFloat (fst (processData parseFloat previousAnalyzedData []))
              tickerDataArray) =
         [dataAnalyzed analyzedData, topGainersUpdated (getTopGainers analyzedData (Fin 5))] @
         (if nonNeutral = [] then [] else [newSignalsDetected nonNeutral]))"
  by (simp add: processData_empty processData_def [of _ "[]" tickerDataArray] Let_def
      detectNewSignals_first getActiveSignals_def)

text \<open>
  Claim C9 on a symbol that is whale activity before and after an empty snapshot,
  together with a neutral one: after the empty snapshot the whale-activity entry is
  reported as new and the neutral entry is not, while without the empty snapshot in
  between no new-signals event is triggered.
\<close>

theorem C9_empty_snapshot_resets_baseline_witness:
  "fst (processData sample_parseFloat [sample_ticker ''BTCUSDT'' ''5'' ''2000000''] []) = [] \<and>
   snd (processData sample_parseFloat
          (fst (processData sample_parseFloat [sample_ticker ''BTCUSDT'' ''5'' ''2000000''] []))
          [sample_raw ''BTCUSDT'' ''5'' ''2000000'', sample_raw ''ETHUSDT'' ''1'' ''1'']) =
     [dataAnalyzed [sample_ticker ''BTCUSDT'' ''5'' ''2000000'', sample_ticker ''ETHUSDT'' ''1'' ''1''],
      topGainersUpdated
        [sample_ticker ''BTCUSDT'' ''5'' ''2000000'', sample_ticker ''ETHUSDT'' ''1'' ''1''],
      newSignalsDetected [sample_ticker ''BTCUSDT'' ''5'' ''2000000'']] \<and>
   type (signal (sample_ticker ''ETHUSDT'' ''1'' ''1'')) = NEUTRAL \<and>
   snd (processData sample_parseFloat [sample_ticker ''BTCUSDT'' ''5'' ''2000000'']
          [sample_raw ''BTCUSDT'' ''5'' ''2000000'', sample_raw ''ETHUSDT'' ''1'' ''1'']) =
     [dataAnalyzed [sample_ticker ''BTCUSDT'' ''5'' ''2000000'', sample_ticker ''ETHUSDT'' ''1'' ''1''],
      topGainersUpdated
        [sample_ticker ''BTCUSDT'' ''5'' ''2000000'', sample_ticker ''ETHUSDT'' ''1'' ''1'']]"
proof -
  let ?x = "sample_ticker ''BTCUSDT'' ''5'' ''2000000''"
  let ?w = "sample_ticker ''ETHUSDT'' ''1'' ''1''"
  let ?snapshot = "[sample_raw ''BTCUSDT'' ''5'' ''2000000'', sample_raw ''ETHUSDT'' ''1'' ''1'']"
  have a: "analyzeTickerArray sample_parseFloat ?snapshot = [?x, ?w]"
    by (simp add: analyzeTickerArray_def sample_ticker_def)
  have n: "type (signal ?w) = NEUTRAL" by (simp add: sample_ticker_types)
  have g: "filter (\<lambda>c. type (signal c) \<noteq> NEUTRAL) [?x, ?w] = [?x]"
    by (simp add: sample_ticker_types)
  have t: "getTopGainers [?x, ?w] (Fin 5) = [?x, ?w]"
    by (simp add: getTopGainers_def array_sort_def array_slice0_def sample_ticker_fields
        sample_parseFloat_simps js_gt_def js_sub_positive)
  have d: "detectNewSignals (Some [?x]) [?x, ?w] = []"
    by (simp add: detectNewSignals_def previousSignals_of_def sample_ticker_types
        sample_ticker_fields)
  have direct: "snd (processData sample_parseFloat [?x] ?snapshot) =
     [dataAnalyzed [?x, ?w], topGainersUpdated [?x, ?w]]"
    by (simp add: processData_def Let_def a t d)
  note c = C9_empty_snapshot_resets_baseline [of sample_parseFloat "[?x]" ?snapshot]
  have ne: "[?x] \<noteq> []" by simp
  from c [THEN conjunct2]
  have "snd (processData sample_parseFloat (fst (processData sample_parseFloat [?x] []))
          ?snapshot) =
     [dataAnalyzed [?x, ?w], topGainersUpdated [?x, ?w], newSignalsDetected [?x]]"
    unfolding Let_def a g t by (simp only: ne if_False append.simps)
  with c [THEN conjunct1] n direct show ?thesis by (intro conjI)
qed

section \<open>Claims about the signal comparison\<close>

text \<open>
  Claim C4. The sets are keyed by symbol: the symbols of the non-neutral entries of the
  previous set are pairwise distinct. If the previous set is empty, \<open>detectNewSignals\<close>
  returns exactly the non-neutral entries of the current set, in its order. Otherwise it
  returns exactly the non-neutral entries of the current set, in its order, whose symbol
  either has no non-neutral entry in the previous set or has one with a different signal
  type. So an entry with the same non-neutral type as the previous entry of its symbol
  is absent from the output, an entry changing between whale activity and panic sell is
  present, and an entry that is neutral now is never present, whatever came before.
\<close>

theorem C4_detectNewSignals:
  "detectNewSignals (Some []) currentData =
     filter (\<lambda>c. type (signal c) \<noteq> NEUTRAL) currentData \<and>
   (previousData \<noteq> [] \<and> distinct (map symbol (getActiveSignals previousData)) \<longrightarrow>
      detectNewSignals (Some previousData) currentData =
        filter (\<lambda>c. type (signal c) \<noteq> NEUTRAL \<and>
                  ((\<forall>p\<in>set previousData. symbol p = symbol c \<longrightarrow> type (signal p) = NEUTRAL) \<or>
                   (\<exists>p\<in>set previousData. symbol p = symbol c \<and> type (signal p) \<noteq> NEUTRAL \<and>
                      type (signal p) \<noteq> type (signal c))))
          currentData \<and>
      (\<forall>p\<in>set previousData. \<forall>c\<in>set currentData.
         symbol p = symbol c \<and> type (signal c) \<noteq> NEUTRAL \<and>
         type (signal p) = type (signal c) \<longrightarrow>
         c \<notin> set (detectNewSignals (Some previousData) currentData)) \<and>
      (\<forall>p\<in>set previousData. \<forall>c\<in>set currentData.
         symbol p = symbol c \<and>
         (type (signal p) = WHALE_ACTIVITY \<and> type (signal c) = PANIC_SELL \<or>
          type (signal p) = PANIC_SELL \<and> type (signal c) = WHALE_ACTIVITY) \<longrightarrow>
         c \<in> set (detectNewSignals (Some previousData) currentData))) \<and>
   (\<forall>c\<in>set (detectNewSignals (Some previousData) currentData). type (signal c) \<noteq> NEUTRAL)"
    (is "?first \<and> (?H \<longrightarrow> ?eq \<and> ?same \<and> ?change) \<and> ?neutral")
proof (intro conjI impI)
  show ?first by (simp add: detectNewSignals_first getActiveSignals_def)
next
  show ?neutral
  proof (cases "previousData = []")
    case True
    then show ?thesis by (simp add: detectNewSignals_first getActiveSignals_def)
  next
    case False
    then show ?thesis by (simp add: detectNewSignals_filter)
  qed
next
  assume h: ?H
  then have ne: "previousData \<noteq> []"
    and d: "distinct (map symbol (getActiveSignals previousData))" by simp_all
  show eq: ?eq
    unfolding detectNewSignals_filter [OF ne] changed_iff [OF d] ..
  show ?same
  proof (intro ballI impI)
    fix p c
    assume "p \<in> set previousData" "c \<in> set currentData"
      and "symbol p = symbol c \<and> type (signal c) \<noteq> NEUTRAL \<and> type (signal p) = type (signal c)"
    then have "previousSignals_of previousData (symbol c) = Some (type (signal c))"
      unfolding previousSignals_of_Some [OF d] by metis
    then show "c \<notin> set (detectNewSignals (Some previousData) currentData)"
      unfolding detectNewSignals_filter [OF ne] by simp
  qed
  show ?change
  proof (intro ballI impI)
    fix p c
    assume p: "p \<in> set previousData" and c: "c \<in> set currentData"
      and t: "symbol p = symbol c \<and>
         (type (signal p) = WHALE_ACTIVITY \<and> type (signal c) = PANIC_SELL \<or>
          type (signal p) = PANIC_SELL \<and> type (signal c) = WHALE_ACTIVITY)"
    then have "type (signal c) \<noteq> NEUTRAL" "symbol p = symbol c" "type (signal p) \<noteq> NEUTRAL"
      "type (signal p) \<noteq> type (signal c)" by auto
    with p have "type (signal c) \<noteq> NEUTRAL \<and>
                  ((\<forall>p\<in>set previousData. symbol p = symbol c \<longrightarrow> type (signal p) = NEUTRAL) \<or>
                   (\<exists>p\<in>set previousData. symbol p = symbol c \<and> type (signal p) \<noteq> NEUTRAL \<and>
                      type (signal p) \<noteq> type (signal c)))" by blast
    with c show "c \<in> set (detectNewSignals (Some previousData) currentData)"
      unfolding eq by simp
  qed
qed

text \<open>
  Claim C4 on a previous set with X whale activity, Y panic sell, Z neutral and a current
  set with X whale activity (unchanged, absent), Y whale activity (changed, present),
  Z panic sell (new, present), W neutral (absent), V whale activity (not seen before,
  present); and on the empty previous set.
\<close>

theorem C4_detectNewSignals_witness:
  "[sample_ticker ''XUSDT'' ''5'' ''2000000'', sample_ticker ''YUSDT'' ''-5'' ''1'',
    sample_ticker ''ZUSDT'' ''1'' ''1''] \<noteq> [] \<and>
   distinct (map symbol (getActiveSignals
     [sample_ticker ''XUSDT'' ''5'' ''2000000'', sample_ticker ''YUSDT'' ''-5'' ''1'',
      sample_ticker ''ZUSDT'' ''1'' ''1''])) \<and>
   detectNewSignals
     (Some [sample_ticker ''XUSDT'' ''5'' ''2000000'', sample_ticker ''YUSDT'' ''-5'' ''1'',
            sample_ticker ''ZUSDT'' ''1'' ''1''])
     [sample_ticker ''XUSDT'' ''5'' ''2000000'', sample_ticker ''YUSDT'' ''5'' ''2000000'',
      sample_ticker ''ZUSDT'' ''-5'' ''1'', sample_ticker ''WUSDT'' ''1'' ''1'',
      sample_ticker ''VUSDT'' ''5'' ''2000000''] =
     [sample_ticker ''YUSDT'' ''5'' ''2000000'', sample_ticker ''ZUSDT'' ''-5'' ''1'',
      sample_ticker ''VUSDT'' ''5'' ''2000000''] \<and>
   detectNewSignals (Some [])
     [sample_ticker ''XUSDT'' ''5'' ''2000000'', sample_ticker ''WUSDT'' ''1'' ''1''] =
     [sample_ticker ''XUSDT'' ''5'' ''2000000'']"
proof -
  let ?prev = "[sample_ticker ''XUSDT'' ''5'' ''2000000'', sample_ticker ''YUSDT'' ''-5'' ''1'',
    sample_ticker ''ZUSDT'' ''1'' ''1'']"
  let ?cur = "[sample_ticker ''XUSDT'' ''5'' ''2000000'', sample_ticker ''YUSDT'' ''5'' ''2000000'',
      sample_ticker ''ZUSDT'' ''-5'' ''1'', sample_ticker ''WUSDT'' ''1'' ''1'',
      sample_ticker ''VUSDT'' ''5'' ''2000000'']"
  have ne: "?prev \<noteq> []" by simp
  have d: "distinct (map symbol (getActiveSignals ?prev))"
    by (simp add: getActiveSignals_def sample_ticker_types sample_ticker_fields)
  from ne d have h: "?prev \<noteq> [] \<and> distinct (map symbol (getActiveSignals ?prev))" ..
  note eq = C4_detectNewSignals [of ?cur ?prev, THEN conjunct2, THEN conjunct1, THEN mp, OF h,
      THEN conjunct1]
  have r: "detectNewSignals (Some ?prev) ?cur =
     [sample_ticker ''YUSDT'' ''5'' ''2000000'', sample_ticker ''ZUSDT'' ''-5'' ''1'',
      sample_ticker ''VUSDT'' ''5'' ''2000000'']"
    unfolding eq by (simp add: sample_ticker_types sample_ticker_fields)
  have f: "detectNewSignals (Some [])
     [sample_ticker ''XUSDT'' ''5'' ''2000000'', sample_ticker ''WUSDT'' ''1'' ''1''] =
     [sample_ticker ''XUSDT'' ''5'' ''2000000'']"
    unfolding C4_detectNewSignals
      [of "[sample_ticker ''XUSDT'' ''5'' ''2000000'', sample_ticker ''WUSDT'' ''1'' ''1'']" "[]",
        THEN conjunct1]
    by (simp add: sample_ticker_types)
  from ne d r f show ?thesis by (intro conjI)
qed

section \<open>Claims about the ranking\<close>

text \<open>
  Claim C7. For every list of enriched tickers and every limit that is at least 0,
  \<open>getTopGainers\<close> returns the first entries, as many as the limit (rounded down)
  allows, of a list \<open>ranked\<close> that holds exactly the entries whose price change
  percentage is strictly greater than 0, is in descending order of the percentage, and
  keeps entries of equal percentage in their original relative order (for every value,
  the entries with that value appear in \<open>ranked\<close> as they do in the input). The result
  may be empty; the function is total, no input makes it fail.
\<close>

theorem C7_getTopGainers_ranking:
  assumes "js_ge limit (Fin 0)"
  shows "\<exists>ranked.
           mset ranked = mset (filter (\<lambda>item. js_gt (priceChangePercent item) (Fin 0)) analyzedData) \<and>
           sorted_wrt (\<lambda>a b. js_ge (priceChangePercent a) (priceChangePercent b)) ranked \<and>
           (\<forall>k. filter (\<lambda>item. priceChangePercent item = k) ranked =
                filter (\<lambda>item. priceChangePercent item = k)
                  (filter (\<lambda>item. js_gt (priceChangePercent item) (Fin 0)) analyzedData)) \<and>
           getTopGainers analyzedData limit =
             (case limit of Fin r \<Rightarrow> take (nat \<lfloor>r\<rfloor>) ranked | _ \<Rightarrow> ranked)"
proof -
  let ?G = "filter (\<lambda>item. js_gt (priceChangePercent item) (Fin 0)) analyzedData"
  let ?S = "array_sort (\<lambda>a b. js_sub (priceChangePercent b) (priceChangePercent a)) ?G"
  have "\<forall>x\<in>set ?G. priceChangePercent x \<noteq> NaN"
    by (auto simp add: js_gt_def)
  then have sorted: "sorted_wrt (\<lambda>a b. js_ge (priceChangePercent a) (priceChangePercent b)) ?S"
    by (rule sorted_array_sort)
  have perm: "mset ?S = mset ?G" by (rule mset_array_sort)
  have stable: "\<forall>k. filter (\<lambda>item. priceChangePercent item = k) ?S =
                    filter (\<lambda>item. priceChangePercent item = k) ?G"
    by (intro allI stable_array_sort)
  have "getTopGainers analyzedData limit =
          (case limit of Fin r \<Rightarrow> take (nat \<lfloor>r\<rfloor>) ?S | _ \<Rightarrow> ?S)"
  proof (cases limit)
    case (Fin r)
    with assms have "0 \<le> r" by (simp add: js_ge_def)
    with Fin show ?thesis by (simp add: getTopGainers_def array_slice0_nonneg)
  next
    case PosInf
    then show ?thesis by (simp add: getTopGainers_def array_slice0_nonneg)
  next
    case NaN
    with assms show ?thesis by (simp add: js_ge_def)
  next
    case NegInf
    with assms show ?thesis by (simp add: js_ge_def)
  qed
  with perm sorted stable show ?thesis by blast
qed

text \<open>
  Claim C7 on six tickers with the percentages 1, 5, -1, 5, 2 and a malformed one, with
  limit 3: the two entries at 5 in their input order, then the entry at 2.
\<close>

theorem C7_getTopGainers_ranking_witness:
  "js_ge (Fin 3) (Fin 0) \<and>
   (\<exists>ranked.
      mset ranked =
        mset (filter (\<lambda>item. js_gt (priceChangePercent item) (Fin 0))
          [sample_ticker ''AUSDT'' ''1'' ''1'', sample_ticker ''BUSDT'' ''5'' ''1'',
           sample_ticker ''CUSDT'' ''-1'' ''1'', sample_ticker ''DUSDT'' ''5'' ''1'',
           sample_ticker ''EUSDT'' ''2'' ''1'', sample_ticker ''NUSDT'' ''abc'' ''1'']) \<and>
      sorted_wrt (\<lambda>a b. js_ge (priceChangePercent a) (priceChangePercent b)) ranked \<and>
      [sample_ticker ''BUSDT'' ''5'' ''1'', sample_ticker ''DUSDT'' ''5'' ''1'',
       sample_ticker ''EUSDT'' ''2'' ''1''] = take 3 ranked) \<and>
   getTopGainers
     [sample_ticker ''AUSDT'' ''1'' ''1'', sample_ticker ''BUSDT'' ''5'' ''1'',
      sample_ticker ''CUSDT'' ''-1'' ''1'', sample_ticker ''DUSDT'' ''5'' ''1'',
      sample_ticker ''EUSDT'' ''2'' ''1'', sample_ticker ''NUSDT'' ''abc'' ''1''] (Fin 3) =
     [sample_ticker ''BUSDT'' ''5'' ''1'', sample_ticker ''DUSDT'' ''5'' ''1'',
      sample_ticker ''EUSDT'' ''2'' ''1'']"
proof -
  let ?data = "[sample_ticker ''AUSDT'' ''1'' ''1'', sample_ticker ''BUSDT'' ''5'' ''1'',
      sample_ticker ''CUSDT'' ''-1'' ''1'', sample_ticker ''DUSDT'' ''5'' ''1'',
      sample_ticker ''EUSDT'' ''2'' ''1'', sample_ticker ''NUSDT'' ''abc'' ''1'']"
  have l: "js_ge (Fin 3) (Fin 0)" by (simp add: js_ge_def)
  have v: "getTopGainers ?data (Fin 3) =
     [sample_ticker ''BUSDT'' ''5'' ''1'', sample_ticker ''DUSDT'' ''5'' ''1'',
      sample_ticker ''EUSDT'' ''2'' ''1'']"
    by (simp add: sample_ranking array_slice0_def)
  from C7_getTopGainers_ranking [OF l, of ?data] obtain ranked where
    "mset ranked = mset (filter (\<lambda>item. js_gt (priceChangePercent item) (Fin 0)) ?data)"
    "sorted_wrt (\<lambda>a b. js_ge (priceChangePercent a) (priceChangePercent b)) ranked"
    "getTopGainers ?data (Fin 3) = take 3 ranked"
    by auto
  with l v show ?thesis by (intro conjI exI [of _ ranked]) simp_all
qed

text \<open>
  Claim C3, as stated, fails: the limit -1 is not rejected. \<open>getTopGainers\<close> ranks with
  it and returns a list, the ranking of the four positive entries without its last one.
\<close>

theorem C3_negative_limit_counterexample:
  "js_lt (Fin (- 1)) (Fin 0) \<and>
   getTopGainers
     [sample_ticker ''AUSDT'' ''1'' ''1'', sample_ticker ''BUSDT'' ''5'' ''1'',
      sample_ticker ''CUSDT'' ''-1'' ''1'', sample_ticker ''DUSDT'' ''5'' ''1'',
      sample_ticker ''EUSDT'' ''2'' ''1'', sample_ticker ''NUSDT'' ''abc'' ''1''] (Fin (- 1)) =
     [sample_ticker ''BUSDT'' ''5'' ''1'', sample_ticker ''DUSDT'' ''5'' ''1'',
      sample_ticker ''EUSDT'' ''2'' ''1'']"
proof -
  have "\<lceil>- 1 :: real\<rceil> = - 1" by (rule ceiling_unique) simp_all
  then show ?thesis by (simp add: sample_ranking array_slice0_def)
qed

text \<open>
  Claim C3, amended. A negative limit is not rejected: \<open>getTopGainers\<close> reads it as a
  position counted from the end of the ranking. For a limit \<open>r \<le> -1\<close> it returns the
  full ranking (the one an infinite limit gives) without its last \<open>-\<lceil>r\<rceil>\<close> entries,
  for \<open>-1 < r < 0\<close> and for minus infinity the empty list. The limit is not configurable
  in the pipeline: \<open>processData\<close> triggers the top-gainers event with the ranking for
  limit 5 and no other, so ranking during \<open>processData\<close> never runs with a negative limit.
\<close>

theorem C3_limit_is_not_validated:
  "(r \<le> - 1 \<longrightarrow>
      getTopGainers analyzedData (Fin r) =
        take (length (getTopGainers analyzedData PosInf) - nat (- \<lceil>r\<rceil>))
          (getTopGainers analyzedData PosInf)) \<and>
   (- 1 < r \<and> r < 0 \<longrightarrow> getTopGainers analyzedData (Fin r) = []) \<and>
   getTopGainers analyzedData NegInf = [] \<and>
   topGainersUpdated (getTopGainers (analyzeTickerArray parseFloat tickerDataArray) (Fin 5)) \<in>
     set (snd (processData parseFloat previousAnalyzedData tickerDataArray)) \<and>
   (\<forall>topGainers.
      topGainersUpdated topGainers \<in>
        set (snd (processData parseFloat previousAnalyzedData tickerDataArray)) \<longrightarrow>
      topGainers = getTopGainers (analyzeTickerArray parseFloat tickerDataArray) (Fin 5)) \<and>
   js_ge (Fin 5) (Fin 0)"
proof (intro conjI impI allI)
  assume "r \<le> - 1"
  then show "getTopGainers analyzedData (Fin r) =
        take (length (getTopGainers analyzedData PosInf) - nat (- \<lceil>r\<rceil>))
          (getTopGainers analyzedData PosInf)"
    unfolding getTopGainers_def array_slice0_nonneg(2) by (rule array_slice0_negative(1))
next
  assume "- 1 < r \<and> r < 0"
  then show "getTopGainers analyzedData (Fin r) = []"
    unfolding getTopGainers_def by (intro array_slice0_negative(2)) simp_all
next
  show "getTopGainers analyzedData NegInf = []"
    unfolding getTopGainers_def by (rule array_slice0_negative(3))
next
  show "topGainersUpdated (getTopGainers (analyzeTickerArray parseFloat tickerDataArray) (Fin 5)) \<in>
     set (snd (processData parseFloat previousAnalyzedData tickerDataArray))"
    by (rule processData_topGainers_emitted)
next
  fix topGainers
  assume "topGainersUpdated topGainers \<in>
        set (snd (processData parseFloat previousAnalyzedData tickerDataArray))"
  then show "topGainers = getTopGainers (analyzeTickerArray parseFloat tickerDataArray) (Fin 5)"
    by (rule processData_topGainers)
next
  show "js_ge (Fin 5) (Fin 0)" by (simp add: js_ge_def)
qed

text \<open>
  The amended claim C3 on three positive tickers with the limits -1 and -0.5, and on
  \<open>processData\<close> with a one-ticker snapshot.
\<close>

theorem C3_limit_is_not_validated_witness:
  "(- 1 :: real) \<le> - 1 \<and>
   getTopGainers
     [sample_ticker ''AUSDT'' ''1'' ''1'', sample_ticker ''BUSDT'' ''5'' ''1'',
      sample_ticker ''EUSDT'' ''2'' ''1''] (Fin (- 1)) =
     [sample_ticker ''BUSDT'' ''5'' ''1'', sample_ticker ''EUSDT'' ''2'' ''1''] \<and>
   (- 1 < (- 1 / 2 :: real) \<and> (- 1 / 2 :: real) < 0) \<and>
   getTopGainers
     [sample_ticker ''AUSDT'' ''1'' ''1'', sample_ticker ''BUSDT'' ''5'' ''1'',
      sample_ticker ''EUSDT'' ''2'' ''1''] (Fin (- 1 / 2)) = [] \<and>
   topGainersUpdated [sample_ticker ''BUSDT'' ''5'' ''1''] \<in>
     set (snd (processData sample_parseFloat [] [sample_raw ''BUSDT'' ''5'' ''1''])) \<and>
   [sample_ticker ''BUSDT'' ''5'' ''1''] =
     getTopGainers (analyzeTickerArray sample_parseFloat [sample_raw ''BUSDT'' ''5'' ''1'']) (Fin 5)"
proof -
  let ?data = "[sample_ticker ''AUSDT'' ''1'' ''1'', sample_ticker ''BUSDT'' ''5'' ''1'',
      sample_ticker ''EUSDT'' ''2'' ''1'']"
  have all: "getTopGainers ?data PosInf =
      [sample_ticker ''BUSDT'' ''5'' ''1'', sample_ticker ''EUSDT'' ''2'' ''1'',
       sample_ticker ''AUSDT'' ''1'' ''1'']"
    by (simp add: getTopGainers_def array_sort_def sample_ticker_fields sample_parseFloat_simps
        js_gt_def js_sub_positive array_slice0_def)
  have c: "\<lceil>- 1 :: real\<rceil> = - 1" by (rule ceiling_unique) simp_all
  have h1: "(- 1 :: real) \<le> - 1" by simp
  have h2: "- 1 < (- 1 / 2 :: real) \<and> (- 1 / 2 :: real) < 0" by simp
  have a: "analyzeTickerArray sample_parseFloat [sample_raw ''BUSDT'' ''5'' ''1''] =
             [sample_ticker ''BUSDT'' ''5'' ''1'']"
    by (simp add: analyzeTickerArray_def sample_ticker_def)
  have t: "getTopGainers [sample_ticker ''BUSDT'' ''5'' ''1''] (Fin 5) =
             [sample_ticker ''BUSDT'' ''5'' ''1'']"
    by (simp add: getTopGainers_def array_sort_def array_slice0_def sample_ticker_fields
        sample_parseFloat_simps js_gt_def)
  have m: "topGainersUpdated [sample_ticker ''BUSDT'' ''5'' ''1''] \<in>
     set (snd (processData sample_parseFloat [] [sample_raw ''BUSDT'' ''5'' ''1'']))"
    by (simp add: processData_def Let_def a t)
  note thm1 = C3_limit_is_not_validated [of "- 1" ?data, THEN conjunct1, THEN mp, OF h1]
  note thm2 = C3_limit_is_not_validated [of "- 1 / 2" ?data, THEN conjunct2, THEN conjunct1,
      THEN mp, OF h2]
  note thm3 = C3_limit_is_not_validated [of 0 "[]" sample_parseFloat
      "[sample_raw ''BUSDT'' ''5'' ''1'']" "[]", THEN conjunct2, THEN conjunct2, THEN conjunct2,
      THEN conjunct2, THEN conjunct1, rule_format, OF m]
  from thm1 have v1: "getTopGainers ?data (Fin (- 1)) =
     [sample_ticker ''BUSDT'' ''5'' ''1'', sample_ticker ''EUSDT'' ''2'' ''1'']"
    unfolding all c by simp
  from h1 v1 h2 [THEN conjunct1] h2 [THEN conjunct2] thm2 m thm3 show ?thesis by (intro conjI)
qed

end
